theory Spec2Isabelle
  imports Complex_Main "HOL-Library.Word"
begin

unbundle bit_operations_syntax

section \<open>Client-side file envelope of securestorage (src/lib/encryption.ts)\<close>

text \<open>
  The two functions of \<^verbatim>\<open>src/lib/encryption.ts\<close>, \<^verbatim>\<open>encryptFile\<close> and
  \<^verbatim>\<open>decryptFile\<close>, are embedded as HOL functions. What they call is modelled in three
  layers.

  \<^item> The browser's string functions (\<^verbatim>\<open>btoa\<close>, \<^verbatim>\<open>atob\<close>, the
    \<^verbatim>\<open>escape\<close>/\<^verbatim>\<open>decodeURIComponent\<close> pair, \<^verbatim>\<open>JSON.stringify\<close>, \<^verbatim>\<open>JSON.parse\<close>,
    \<^verbatim>\<open>String.prototype.replace\<close>) are written out as executable functions.
  \<^item> CryptoJS's container type and its hexadecimal printer are written out; its cipher and
    its hexadecimal reader are parameters (a record of functions), since the library is
    not part of the repository.
  \<^item> What differs between JavaScript engines (the largest typed array, the text of the
    engine's own exceptions, the coercion of a non-number to a length) is a second record
    of parameters.

  A JavaScript text string is represented by the list of the bytes of its UTF-8 form; a
  binary string (what \<^verbatim>\<open>atob\<close> returns and \<^verbatim>\<open>btoa\<close> takes) by the list of its code
  units, all below 256. Both are \<^typ>\<open>string\<close>. A character outside ASCII in an argument
  of \<^verbatim>\<open>atob\<close> is rejected by \<^verbatim>\<open>atob\<close> in either reading.
\<close>

type_synonym byte = "8 word"

text \<open>A thrown \<^verbatim>\<open>Error\<close>; the code only ever reads its \<^verbatim>\<open>message\<close>.\<close>

datatype js_error = Error (message: string)

subsection \<open>Base64: \<^verbatim>\<open>btoa\<close> and \<^verbatim>\<open>atob\<close>\<close>

definition b64chars :: string where
  "b64chars = ''ABCDEFGHIJKLMNOPQRSTUVWXYZabcdefghijklmnopqrstuvwxyz0123456789+/''"

definition b64char :: "nat \<Rightarrow> char" where
  "b64char n = b64chars ! n"

fun position :: "'a \<Rightarrow> 'a list \<Rightarrow> nat option" where
  "position x [] = None"
| "position x (y # ys) = (if x = y then Some 0 else map_option Suc (position x ys))"

definition b64index :: "char \<Rightarrow> nat option" where
  "b64index c = position c b64chars"

text \<open>
  \<^verbatim>\<open>btoa\<close>: three bytes become four characters; a last group of one or two bytes is
  completed with \<^verbatim>\<open>=\<close>. (It throws on a code unit above 255, which a \<^typ>\<open>char\<close>
  cannot hold.)
\<close>

fun btoa :: "string \<Rightarrow> string" where
  "btoa [] = []"
| "btoa [a] =
     (let x = (of_char a :: nat)
      in [b64char (x div 4), b64char (x mod 4 * 16), CHR ''='', CHR ''=''])"
| "btoa [a, b] =
     (let x = (of_char a :: nat); y = (of_char b :: nat)
      in [b64char (x div 4), b64char (x mod 4 * 16 + y div 16),
          b64char (y mod 16 * 4), CHR ''=''])"
| "btoa (a # b # c # rest) =
     (let x = (of_char a :: nat); y = (of_char b :: nat); z = (of_char c :: nat)
      in [b64char (x div 4), b64char (x mod 4 * 16 + y div 16),
          b64char (y mod 16 * 4 + z div 64), b64char (z mod 64)] @ btoa rest)"

definition ascii_whitespace :: "char \<Rightarrow> bool" where
  "ascii_whitespace c =
     (c = CHR 0x09 \<or> c = CHR 0x0A \<or> c = CHR 0x0C \<or> c = CHR 0x0D \<or> c = CHR 0x20)"

text \<open>Up to two \<^verbatim>\<open>=\<close> at the end are removed.\<close>

definition remove_padding :: "string \<Rightarrow> string" where
  "remove_padding dat =
     (if dat \<noteq> [] \<and> last dat = CHR ''='' then
        (let dat' = butlast dat
         in if dat' \<noteq> [] \<and> last dat' = CHR ''='' then butlast dat' else dat')
      else dat)"

text \<open>
  Groups of four six-bit values become three bytes; of a last group of three, the low two
  bits are dropped, of a last group of two, the low four.
\<close>

fun octets :: "nat list \<Rightarrow> string" where
  "octets (a # b # c # d # rest) =
     [char_of (a * 4 + b div 16), char_of (b mod 16 * 16 + c div 4), char_of (c mod 4 * 64 + d)]
     @ octets rest"
| "octets [a, b, c] = [char_of (a * 4 + b div 16), char_of (b mod 16 * 16 + c div 4)]"
| "octets [a, b] = [char_of (a * 4 + b div 16)]"
| "octets [a] = []"
| "octets [] = []"

text \<open>
  \<^verbatim>\<open>atob\<close> (the forgiving decoder of the HTML standard): ASCII whitespace is dropped; if
  the length is then a multiple of four, up to two final \<^verbatim>\<open>=\<close> are dropped; a length
  of 1 modulo 4, or any character outside the alphabet, is an error (\<open>None\<close>).
\<close>

definition atob :: "string \<Rightarrow> string option" where
  "atob s =
     (let dat = filter (\<lambda>c. \<not> ascii_whitespace c) s;
          dat = (if length dat mod 4 = 0 then remove_padding dat else dat)
      in if length dat mod 4 = 1 then None
         else map_option octets (those (map b64index dat)))"

subsection \<open>The transport alphabet\<close>

text \<open>\<^verbatim>\<open>s.replace(/a/g, b)\<close> for a one-character pattern.\<close>

definition replace_all :: "char \<Rightarrow> char \<Rightarrow> string \<Rightarrow> string" where
  "replace_all a b s = map (\<lambda>c. if c = a then b else c) s"

text \<open>\<^verbatim>\<open>s.replace(/=+$/, '')\<close>.\<close>

definition strip_equals :: "string \<Rightarrow> string" where
  "strip_equals s = rev (dropWhile (\<lambda>c. c = CHR ''='') (rev s))"

text \<open>\<^verbatim>\<open>while (standardBase64.length % 4) { standardBase64 += '='; }\<close>\<close>

function add_padding :: "string \<Rightarrow> string" where
  "add_padding standardBase64 =
     (if length standardBase64 mod 4 \<noteq> 0 then add_padding (standardBase64 @ ''='')
      else standardBase64)"
  by pat_completeness auto
termination
proof (relation "measure (\<lambda>s. (4 - length s mod 4) mod 4)")
  fix s :: string
  assume a: "length s mod 4 \<noteq> 0"
  have "length s mod 4 < 4" by (rule mod_less_divisor) simp
  with a consider "length s mod 4 = 1" | "length s mod 4 = 2" | "length s mod 4 = 3"
    by linarith
  then show "(s @ ''='', s) \<in> measure (\<lambda>s. (4 - length s mod 4) mod 4)"
    by cases (simp_all add: mod_Suc)
qed simp

declare add_padding.simps [simp del]

subsection \<open>The transport encoding as the specification words it\<close>

text \<open>
  \<open>base64url_nopad\<close> is base64 with the URL-safe alphabet and no padding characters,
  defined on its own: every group of three bytes gives four six-bit values, a last group
  of one or two bytes gives two or three, and each value is one character of
  \<open>url_chars\<close>. The theorems compare it with what the code computes.
\<close>

definition url_chars :: string where
  "url_chars = ''ABCDEFGHIJKLMNOPQRSTUVWXYZabcdefghijklmnopqrstuvwxyz0123456789-_''"

fun sextets :: "string \<Rightarrow> nat list" where
  "sextets [] = []"
| "sextets [a] = (let x = (of_char a :: nat) in [x div 4, x mod 4 * 16])"
| "sextets [a, b] =
     (let x = (of_char a :: nat); y = (of_char b :: nat)
      in [x div 4, x mod 4 * 16 + y div 16, y mod 16 * 4])"
| "sextets (a # b # c # rest) =
     (let x = (of_char a :: nat); y = (of_char b :: nat); z = (of_char c :: nat)
      in [x div 4, x mod 4 * 16 + y div 16, y mod 16 * 4 + z div 64, z mod 64] @ sextets rest)"

definition base64url_nopad :: "string \<Rightarrow> string" where
  "base64url_nopad s = map (\<lambda>n. url_chars ! n) (sextets s)"

text \<open>
  Names used in the proofs: one step of \<open>replace_all\<close>, the number of \<^verbatim>\<open>=\<close> that
  \<open>btoa\<close> appends, and the lower-case hexadecimal digits.
\<close>

definition swap_char :: "char \<Rightarrow> char \<Rightarrow> char \<Rightarrow> char" where
  "swap_char a b c = (if c = a then b else c)"

definition padding :: "string \<Rightarrow> nat" where
  "padding s = (3 - length s mod 3) mod 3"

definition lower_hex :: "char \<Rightarrow> bool" where
  "lower_hex c = (c \<in> set ''0123456789abcdef'')"

text \<open>
  The characters that \<^verbatim>\<open>JSON.stringify\<close> writes as they are (printable ASCII other than
  the quotation mark and the backslash), and the ASCII characters.
\<close>

definition plain :: "char \<Rightarrow> bool" where
  "plain c = (32 \<le> (of_char c :: nat) \<and> (of_char c :: nat) < 127 \<and> c \<noteq> CHR 0x22 \<and> c \<noteq> CHR 0x5C)"

definition ascii :: "char \<Rightarrow> bool" where
  "ascii c = ((of_char c :: nat) < 128)"

subsection \<open>UTF-8: \<^verbatim>\<open>unescape(encodeURIComponent(s))\<close> and \<^verbatim>\<open>decodeURIComponent(escape(s))\<close>\<close>

definition continuation :: "nat \<Rightarrow> bool" where
  "continuation b = (128 \<le> b \<and> b < 192)"

text \<open>
  Well-formed UTF-8: no overlong form, no surrogate, nothing above U+10FFFF.
  \<^verbatim>\<open>decodeURIComponent\<close> throws a \<^verbatim>\<open>URIError\<close> on anything else.
\<close>

fun utf8_ok :: "nat list \<Rightarrow> bool" where
  "utf8_ok [] = True"
| "utf8_ok (a # rest) =
     (if a < 128 then utf8_ok rest
      else if 194 \<le> a \<and> a < 224 then
        (case rest of b # r \<Rightarrow> continuation b \<and> utf8_ok r | _ \<Rightarrow> False)
      else if 224 \<le> a \<and> a < 240 then
        (case rest of
           b # c # r \<Rightarrow>
             continuation b \<and> continuation c \<and> (if a = 224 then 160 \<le> b else True)
             \<and> (if a = 237 then b < 160 else True)
             \<and> utf8_ok r
         | _ \<Rightarrow> False)
      else if 240 \<le> a \<and> a < 245 then
        (case rest of
           b # c # d # r \<Rightarrow>
             continuation b \<and> continuation c \<and> continuation d
             \<and> (if a = 240 then 144 \<le> b else True)
             \<and> (if a = 244 then b < 144 else True) \<and> utf8_ok r
         | _ \<Rightarrow> False)
      else False)"

text \<open>
  \<^verbatim>\<open>decodeURIComponent(escape(decodedData))\<close>: the binary string read as UTF-8. With text
  represented by its UTF-8 bytes, the result is the argument when it is well formed.
\<close>

definition utf8_decode :: "string \<Rightarrow> string option" where
  "utf8_decode decodedData =
     (if utf8_ok (map of_char decodedData) then Some decodedData else None)"

text \<open>
  \<^verbatim>\<open>unescape(encodeURIComponent(jsonString))\<close>: the UTF-8 bytes of the text as a binary
  string, which is the representation itself.
\<close>

definition utf8_encode :: "string \<Rightarrow> string" where
  "utf8_encode jsonString = jsonString"

subsection \<open>JSON values\<close>

text \<open>
  What \<^verbatim>\<open>JSON.parse\<close> returns. A number is kept as the exact value of its literal (the
  rounding of a literal to the nearest double is not modelled; it leaves every integer
  up to \<open>2^53\<close> and every literal that is a double, such as \<^verbatim>\<open>2.5\<close>, as it is, but a
  literal like \<^verbatim>\<open>1e-324\<close>, which the code reads as 0, is not 0 here). The theorems
  about \<open>decryptFile\<close> take the parsed value as it is given. An object is the list of
  its members in the order of the text.
\<close>

datatype json =
    JNull
  | JBool bool
  | JNumber rat
  | JString string
  | JArray "json list"
  | JObject "(string \<times> json) list"

subsection \<open>\<^verbatim>\<open>JSON.stringify\<close> of the object \<^verbatim>\<open>{k, i, d, s}\<close>\<close>

definition hex_digit :: "nat \<Rightarrow> char" where
  "hex_digit n = ''0123456789abcdef'' ! n"

text \<open>One character of a quoted JSON string.\<close>

definition quote_char :: "char \<Rightarrow> string" where
  "quote_char c =
     (if c = CHR 0x22 then [CHR 0x5C, CHR 0x22]
      else if c = CHR 0x5C then [CHR 0x5C, CHR 0x5C]
      else if c = CHR 0x08 then [CHR 0x5C, CHR ''b'']
      else if c = CHR 0x0C then [CHR 0x5C, CHR ''f'']
      else if c = CHR 0x0A then [CHR 0x5C, CHR ''n'']
      else if c = CHR 0x0D then [CHR 0x5C, CHR ''r'']
      else if c = CHR 0x09 then [CHR 0x5C, CHR ''t'']
      else if (of_char c :: nat) < 32 then
        [CHR 0x5C, CHR ''u'', CHR ''0'', CHR ''0'',
         hex_digit (of_char c div 16), hex_digit (of_char c mod 16)]
      else [c])"

definition quote :: "string \<Rightarrow> string" where
  "quote s = CHR 0x22 # concat (map quote_char s) @ [CHR 0x22]"

text \<open>
  A length printed in decimal, as \<^verbatim>\<open>Number.prototype.toString\<close> prints every integer
  below \<open>10^21\<close>.
\<close>

fun decimal :: "nat \<Rightarrow> string" where
  "decimal n =
     (if n < 10 then [char_of (48 + n)] else decimal (n div 10) @ [char_of (48 + n mod 10)])"

declare decimal.simps [simp del]

text \<open>
  \<^verbatim>\<open>JSON.stringify(combined)\<close> for
  \<^verbatim>\<open>combined = { k: ..., i: ..., d: ..., s: ... }\<close>: the members in the order of the object
  literal, no white space.
\<close>

definition JSON_stringify :: "string \<Rightarrow> string \<Rightarrow> string \<Rightarrow> nat \<Rightarrow> string" where
  "JSON_stringify kv iv dv sv =
     ''{'' @ quote ''k'' @ '':'' @ quote kv @ '','' @ quote ''i'' @ '':'' @ quote iv @ '',''
     @ quote ''d'' @ '':'' @ quote dv @ '','' @ quote ''s'' @ '':'' @ decimal sv @ ''}''"

subsection \<open>\<^verbatim>\<open>JSON.parse\<close>\<close>

datatype token =
    LBrace | RBrace | LBracket | RBracket | Colon | Comma
  | TString string | TNumber rat | TTrue | TFalse | TNull

definition is_digit :: "char \<Rightarrow> bool" where
  "is_digit c = (48 \<le> (of_char c :: nat) \<and> (of_char c :: nat) \<le> 57)"

definition json_space :: "char \<Rightarrow> bool" where
  "json_space c = (c = CHR 0x20 \<or> c = CHR 0x09 \<or> c = CHR 0x0A \<or> c = CHR 0x0D)"

definition hex_value :: "char \<Rightarrow> nat option" where
  "hex_value c =
     (let n = (of_char c :: nat)
      in if 48 \<le> n \<and> n \<le> 57 then Some (n - 48)
         else if 97 \<le> n \<and> n \<le> 102 then Some (n - 87)
         else if 65 \<le> n \<and> n \<le> 70 then Some (n - 55)
         else None)"

definition hex4 :: "char \<Rightarrow> char \<Rightarrow> char \<Rightarrow> char \<Rightarrow> nat option" where
  "hex4 a b c d =
     (case (hex_value a, hex_value b, hex_value c, hex_value d) of
        (Some x, Some y, Some z, Some w) \<Rightarrow> Some (((x * 16 + y) * 16 + z) * 16 + w)
      | _ \<Rightarrow> None)"

text \<open>
  The bytes that stand for the code unit of a \<^verbatim>\<open>\uXXXX\<close> escape (a surrogate written as
  an escape keeps a three-byte group of its own).
\<close>

definition unit_bytes :: "nat \<Rightarrow> string" where
  "unit_bytes u =
     (if u < 128 then [char_of u]
      else if u < 2048 then [char_of (192 + u div 64), char_of (128 + u mod 64)]
      else [char_of (224 + u div 4096), char_of (128 + u div 64 mod 64), char_of (128 + u mod 64)])"

definition unescape :: "char \<Rightarrow> char option" where
  "unescape e =
     (if e = CHR 0x22 \<or> e = CHR 0x5C \<or> e = CHR ''/'' then Some e
      else if e = CHR ''b'' then Some (CHR 0x08)
      else if e = CHR ''f'' then Some (CHR 0x0C)
      else if e = CHR ''n'' then Some (CHR 0x0A)
      else if e = CHR ''r'' then Some (CHR 0x0D)
      else if e = CHR ''t'' then Some (CHR 0x09)
      else None)"

text \<open>
  A string literal after its opening quote: the content and the text after the closing
  quote. A control character, a bad escape or a missing closing quote is a syntax error.
\<close>

fun lex_string :: "string \<Rightarrow> (string \<times> string) option" where
  "lex_string [] = None"
| "lex_string (c # cs) =
     (if c = CHR 0x22 then Some ([], cs)
      else if c = CHR 0x5C then
        (case cs of
           [] \<Rightarrow> None
         | e # r \<Rightarrow>
             if e = CHR ''u'' then
               (case r of
                  h1 # h2 # h3 # h4 # r' \<Rightarrow>
                    (case hex4 h1 h2 h3 h4 of
                       None \<Rightarrow> None
                     | Some u \<Rightarrow> map_option (\<lambda>(s, t). (unit_bytes u @ s, t)) (lex_string r'))
                | _ \<Rightarrow> None)
             else
               (case unescape e of
                  None \<Rightarrow> None
                | Some x \<Rightarrow> map_option (\<lambda>(s, t). (x # s, t)) (lex_string r)))
      else if (of_char c :: nat) < 32 then None
      else map_option (\<lambda>(s, t). (c # s, t)) (lex_string cs))"

text \<open>The value of a list of decimal digits.\<close>

definition digits_value :: "string \<Rightarrow> int" where
  "digits_value ds = foldl (\<lambda>n c. n * 10 + (of_char c - 48)) 0 ds"

text \<open>
  A number literal: an optional minus sign, an integer part without a leading zero, an
  optional fraction, an optional exponent. Each part returns what it read and the text
  after it.
\<close>

definition lex_sign :: "string \<Rightarrow> bool \<times> string" where
  "lex_sign cs = (if cs \<noteq> [] \<and> hd cs = CHR ''-'' then (True, tl cs) else (False, cs))"

definition lex_digits :: "string \<Rightarrow> string \<times> string" where
  "lex_digits cs = (takeWhile is_digit cs, dropWhile is_digit cs)"

definition lex_fraction :: "string \<Rightarrow> (string \<times> string) option" where
  "lex_fraction cs =
     (if cs \<noteq> [] \<and> hd cs = CHR ''.'' then
        (case lex_digits (tl cs) of (fp, rest) \<Rightarrow> if fp = [] then None else Some (fp, rest))
      else Some ([], cs))"

definition lex_exponent :: "string \<Rightarrow> (int \<times> string) option" where
  "lex_exponent cs =
     (if cs \<noteq> [] \<and> (hd cs = CHR ''e'' \<or> hd cs = CHR ''E'') then
        (let cs1 = tl cs;
             neg = (cs1 \<noteq> [] \<and> hd cs1 = CHR ''-'');
             cs2 = (if cs1 \<noteq> [] \<and> (hd cs1 = CHR ''-'' \<or> hd cs1 = CHR ''+'') then tl cs1 else cs1)
         in case lex_digits cs2 of
              (ep, rest) \<Rightarrow>
                if ep = [] then None
                else Some (if neg then - digits_value ep else digits_value ep, rest))
      else Some (0, cs))"

definition scale10 :: "rat \<Rightarrow> int \<Rightarrow> rat" where
  "scale10 x e = (if 0 \<le> e then x * 10 ^ nat e else x / 10 ^ nat (- e))"

definition number_value :: "bool \<Rightarrow> string \<Rightarrow> string \<Rightarrow> int \<Rightarrow> rat" where
  "number_value neg ip fp e =
     (let m = scale10 (of_int (digits_value (ip @ fp))) (e - int (length fp))
      in if neg then - m else m)"

definition lex_number :: "string \<Rightarrow> (rat \<times> string) option" where
  "lex_number cs =
     (case lex_sign cs of
        (neg, cs1) \<Rightarrow>
          (case lex_digits cs1 of
             (ip, cs2) \<Rightarrow>
               if ip = [] \<or> (hd ip = CHR ''0'' \<and> length ip > 1) then None
               else
                 (case lex_fraction cs2 of
                    None \<Rightarrow> None
                  | Some (fp, cs3) \<Rightarrow>
                      (case lex_exponent cs3 of
                         None \<Rightarrow> None
                       | Some (e, cs4) \<Rightarrow> Some (number_value neg ip fp e, cs4)))))"


lemma lex_string_shorter: "lex_string cs = Some p \<Longrightarrow> length (snd p) < length cs"
proof (induction cs arbitrary: p rule: lex_string.induct)
  case 1
  then show ?case by simp
next
  case (2 c cs)
  then show ?case
    by (fastforce split: if_splits list.splits option.splits)
qed

lemma lex_sign_length: "lex_sign cs = (m, r) \<Longrightarrow> length r \<le> length cs"
  by (auto simp: lex_sign_def split: if_splits)

lemma lex_digits_length: "lex_digits cs = (ds, r) \<Longrightarrow> length ds + length r = length cs"
  by (auto simp: lex_digits_def simp flip: length_append)

lemma lex_fraction_length: "lex_fraction cs = Some (fp, r) \<Longrightarrow> length r \<le> length cs"
  by (auto simp: lex_fraction_def split: if_splits prod.splits dest!: lex_digits_length)

lemma lex_exponent_length: "lex_exponent cs = Some (e, r) \<Longrightarrow> length r \<le> length cs"
  by (auto simp: lex_exponent_def Let_def split: if_splits prod.splits dest!: lex_digits_length)

lemma lex_number_shorter: "lex_number cs = Some p \<Longrightarrow> length (snd p) < length cs"
  by (auto simp: lex_number_def simp flip: length_greater_0_conv
      split: prod.splits if_splits option.splits
      dest!: lex_sign_length lex_digits_length lex_fraction_length lex_exponent_length)

text \<open>The text as a list of tokens; \<open>None\<close> when some part of it is no token.\<close>

function lex :: "string \<Rightarrow> token list option" where
  "lex [] = Some []"
| "lex (c # cs) =
     (if json_space c then lex cs
      else if c = CHR ''{'' then map_option ((#) LBrace) (lex cs)
      else if c = CHR ''}'' then map_option ((#) RBrace) (lex cs)
      else if c = CHR ''['' then map_option ((#) LBracket) (lex cs)
      else if c = CHR '']'' then map_option ((#) RBracket) (lex cs)
      else if c = CHR '':'' then map_option ((#) Colon) (lex cs)
      else if c = CHR '','' then map_option ((#) Comma) (lex cs)
      else if c = CHR 0x22 then
        (case lex_string cs of
           None \<Rightarrow> None
         | Some p \<Rightarrow> map_option ((#) (TString (fst p))) (lex (snd p)))
      else if c = CHR ''-'' \<or> is_digit c then
        (case lex_number (c # cs) of
           None \<Rightarrow> None
         | Some p \<Rightarrow> map_option ((#) (TNumber (fst p))) (lex (snd p)))
      else if c = CHR ''t'' \<and> take 3 cs = ''rue'' then map_option ((#) TTrue) (lex (drop 3 cs))
      else if c = CHR ''f'' \<and> take 4 cs = ''alse'' then map_option ((#) TFalse) (lex (drop 4 cs))
      else if c = CHR ''n'' \<and> take 3 cs = ''ull'' then map_option ((#) TNull) (lex (drop 3 cs))
      else None)"
  by pat_completeness auto
termination
proof (relation "measure length", goal_cases)
  case 1
  then show ?case by simp
next
  case (9 c cs p)
  then show ?case using lex_string_shorter [of cs p] by simp
next
  case (10 c cs p)
  then show ?case using lex_number_shorter [of "c # cs" p] by simp
qed simp_all

declare lex.simps [simp del]

text \<open>
  The grammar, read token by token with a stack of the arrays and objects that are still
  open (innermost first). An open array holds its elements so far, newest first; an open
  object its members so far, newest first, and the key that waits for its value.
\<close>

datatype frame = InArray "json list" | InObject "(string \<times> json) list" string

datatype mode =
    NeedValue | NeedValueOrEnd | NeedKeyOrEnd | NeedKey | NeedColon | NeedCommaOrEnd
  | Finished json

fun deliver :: "json \<Rightarrow> frame list \<Rightarrow> frame list \<times> mode" where
  "deliver v [] = ([], Finished v)"
| "deliver v (InArray es # st) = (InArray (v # es) # st, NeedCommaOrEnd)"
| "deliver v (InObject ms k # st) = (InObject ((k, v) # ms) k # st, NeedCommaOrEnd)"

fun scalar :: "token \<Rightarrow> json option" where
  "scalar (TString s) = Some (JString s)"
| "scalar (TNumber r) = Some (JNumber r)"
| "scalar TTrue = Some (JBool True)"
| "scalar TFalse = Some (JBool False)"
| "scalar TNull = Some JNull"
| "scalar _ = None"

fun open_value :: "token \<Rightarrow> frame list \<Rightarrow> (frame list \<times> mode) option" where
  "open_value LBracket st = Some (InArray [] # st, NeedValueOrEnd)"
| "open_value LBrace st = Some (InObject [] [] # st, NeedKeyOrEnd)"
| "open_value t st = map_option (\<lambda>v. deliver v st) (scalar t)"

fun step :: "frame list \<times> mode \<Rightarrow> token \<Rightarrow> (frame list \<times> mode) option" where
  "step (st, NeedValue) t = open_value t st"
| "step (InArray es # st, NeedValueOrEnd) RBracket = Some (deliver (JArray (rev es)) st)"
| "step (st, NeedValueOrEnd) t = open_value t st"
| "step (InObject ms k # st, NeedKeyOrEnd) RBrace = Some (deliver (JObject (rev ms)) st)"
| "step (InObject ms k # st, NeedKeyOrEnd) (TString k') = Some (InObject ms k' # st, NeedColon)"
| "step (InObject ms k # st, NeedKey) (TString k') = Some (InObject ms k' # st, NeedColon)"
| "step (st, NeedColon) Colon = Some (st, NeedValue)"
| "step (InArray es # st, NeedCommaOrEnd) Comma = Some (InArray es # st, NeedValue)"
| "step (InObject ms k # st, NeedCommaOrEnd) Comma = Some (InObject ms k # st, NeedKey)"
| "step (InArray es # st, NeedCommaOrEnd) RBracket = Some (deliver (JArray (rev es)) st)"
| "step (InObject ms k # st, NeedCommaOrEnd) RBrace = Some (deliver (JObject (rev ms)) st)"
| "step _ _ = None"

fun run :: "frame list \<times> mode \<Rightarrow> token list \<Rightarrow> json option" where
  "run (st, Finished v) [] = Some v"
| "run (st, m) [] = None"
| "run c (t # ts) = (case step c t of None \<Rightarrow> None | Some c' \<Rightarrow> run c' ts)"

text \<open>\<^verbatim>\<open>JSON.parse(jsonStr)\<close>; \<open>None\<close> is its \<^verbatim>\<open>SyntaxError\<close>.\<close>

definition JSON_parse :: "string \<Rightarrow> json option" where
  "JSON_parse jsonStr = (case lex jsonStr of None \<Rightarrow> None | Some ts \<Rightarrow> run ([], NeedValue) ts)"

subsection \<open>Reading a parsed value\<close>

text \<open>
  \<^verbatim>\<open>v.name\<close> for a value other than \<^verbatim>\<open>null\<close>, where \<open>None\<close> is \<^verbatim>\<open>undefined\<close>. Of a
  repeated key the last member counts. Only the names \<^verbatim>\<open>k\<close>, \<^verbatim>\<open>i\<close>, \<^verbatim>\<open>d\<close> and
  \<^verbatim>\<open>s\<close> are read, which no string, array, number or boolean has.
\<close>

fun get_member :: "json \<Rightarrow> string \<Rightarrow> json option" where
  "get_member (JObject ms) name = map_of (rev ms) name"
| "get_member _ name = None"

text \<open>What \<^verbatim>\<open>!v\<close> negates.\<close>

fun truthy :: "json option \<Rightarrow> bool" where
  "truthy None = False"
| "truthy (Some JNull) = False"
| "truthy (Some (JBool b)) = b"
| "truthy (Some (JNumber r)) = (r \<noteq> 0)"
| "truthy (Some (JString s)) = (s \<noteq> [])"
| "truthy (Some (JArray es)) = True"
| "truthy (Some (JObject ms)) = True"


subsection \<open>The JavaScript engine\<close>

text \<open>
  What the engines do not agree on, and what the code leaves to the engine's coercions:
  \<^item> \<open>max_length\<close>: the longest \<^verbatim>\<open>Uint8Array\<close> the engine allocates;
  \<^item> \<open>null_message\<close>: the message of the \<^verbatim>\<open>TypeError\<close> thrown by reading the property
    \<^verbatim>\<open>k\<close> of \<^verbatim>\<open>null\<close>;
  \<^item> \<open>length_message\<close>: the message of the \<^verbatim>\<open>RangeError\<close> thrown for a length that
    is negative or too large;
  \<^item> \<open>array_of\<close>: \<^verbatim>\<open>new Uint8Array(v)\<close> for a \<open>v\<close> that is not a number;
  \<^item> \<open>below\<close>: \<^verbatim>\<open>offset < v\<close> for a \<open>v\<close> that is not a number.
\<close>

record engine =
  max_length :: nat
  null_message :: string
  length_message :: "rat \<Rightarrow> string"
  array_of :: "json \<Rightarrow> js_error + byte list"
  below :: "nat \<Rightarrow> json \<Rightarrow> bool"

text \<open>The integer a number is cut to: its fraction is dropped.\<close>

definition to_integer :: "rat \<Rightarrow> int" where
  "to_integer r = (if 0 \<le> r then \<lfloor>r\<rfloor> else \<lceil>r\<rceil>)"

text \<open>
  \<^verbatim>\<open>new Uint8Array(sigBytes)\<close>: zero-filled. A negative length, a length above
  \<open>2^53 - 1\<close> and a length the engine cannot allocate throw a \<^verbatim>\<open>RangeError\<close>.
\<close>

definition new_Uint8Array :: "engine \<Rightarrow> json \<Rightarrow> js_error + byte list" where
  "new_Uint8Array eng v =
     (case v of
        JNumber r \<Rightarrow>
          if to_integer r < 0 \<or> int (min (max_length eng) (2 ^ 53 - 1)) < to_integer r
          then Inl (Error (length_message eng r))
          else Inr (replicate (nat (to_integer r)) 0)
      | _ \<Rightarrow> array_of eng v)"

text \<open>\<^verbatim>\<open>offset < v\<close> in the loops\<close>

definition less_than :: "engine \<Rightarrow> nat \<Rightarrow> json \<Rightarrow> bool" where
  "less_than eng offset v =
     (case v of JNumber r \<Rightarrow> of_nat offset < r | _ \<Rightarrow> below eng offset v)"

subsection \<open>CryptoJS\<close>

text \<open>
  \<^verbatim>\<open>CryptoJS.lib.WordArray\<close>: 32-bit words, most significant byte first, of which the
  first \<open>sigBytes\<close> bytes count.
\<close>

record WordArray =
  words :: "32 word list"
  sigBytes :: nat

definition pack :: "byte \<Rightarrow> byte \<Rightarrow> byte \<Rightarrow> byte \<Rightarrow> 32 word" where
  "pack a b c d = push_bit 24 (ucast a) OR push_bit 16 (ucast b) OR push_bit 8 (ucast c) OR ucast d"

fun pack_bytes :: "byte list \<Rightarrow> 32 word list" where
  "pack_bytes (a # b # c # d # rest) = pack a b c d # pack_bytes rest"
| "pack_bytes [a, b, c] = [pack a b c 0]"
| "pack_bytes [a, b] = [pack a b 0 0]"
| "pack_bytes [a] = [pack a 0 0 0]"
| "pack_bytes [] = []"

text \<open>\<^verbatim>\<open>CryptoJS.lib.WordArray.create(uint8Array)\<close>\<close>

definition WordArray_create :: "byte list \<Rightarrow> WordArray" where
  "WordArray_create uint8Array = \<lparr>words = pack_bytes uint8Array, sigBytes = length uint8Array\<rparr>"

text \<open>\<^verbatim>\<open>(word >>> (24 - j * 8)) & 0xff\<close>\<close>

definition word_byte :: "32 word \<Rightarrow> nat \<Rightarrow> byte" where
  "word_byte word j = ucast (drop_bit (24 - j * 8) word AND 0xff)"

text \<open>Byte \<open>i\<close> of a word list; a word that is not there reads as zero.\<close>

definition byte_at :: "32 word list \<Rightarrow> nat \<Rightarrow> byte" where
  "byte_at ws i = (if i div 4 < length ws then word_byte (ws ! (i div 4)) (i mod 4) else 0)"

text \<open>
  \<^verbatim>\<open>wordArray.toString()\<close>: the default encoder is hexadecimal, two lower-case digits
  for each significant byte.
\<close>

definition toString :: "WordArray \<Rightarrow> string" where
  "toString wordArray =
     concat (map (\<lambda>i. [hex_digit (unat (byte_at (words wordArray) i) div 16),
                        hex_digit (unat (byte_at (words wordArray) i) mod 16)])
                 [0..<sigBytes wordArray])"

text \<open>
  The functions of the library that are taken as given:
  \<^item> \<open>AES_encrypt message key iv\<close> is
    \<^verbatim>\<open>CryptoJS.AES.encrypt(message, key, {iv, mode: CBC, padding: Pkcs7}).toString()\<close>;
  \<^item> \<open>Hex_parse v\<close> is \<^verbatim>\<open>CryptoJS.enc.Hex.parse(v)\<close>;
  \<^item> \<open>AES_decrypt v key iv\<close> is
    \<^verbatim>\<open>CryptoJS.AES.decrypt(v, key, {iv, mode: CBC, padding: Pkcs7})\<close>.
  The two readers get whatever the envelope holds under \<^verbatim>\<open>k\<close>, \<^verbatim>\<open>i\<close> and
  \<^verbatim>\<open>d\<close>, so they take any JSON value and may throw.
\<close>

record cryptojs =
  AES_encrypt :: "WordArray \<Rightarrow> WordArray \<Rightarrow> WordArray \<Rightarrow> string"
  Hex_parse :: "json \<Rightarrow> js_error + WordArray"
  AES_decrypt :: "json \<Rightarrow> WordArray \<Rightarrow> WordArray \<Rightarrow> js_error + WordArray"

subsection \<open>The world of \<^verbatim>\<open>encryptFile\<close>\<close>

text \<open>
  \<open>entropy\<close> is the sequence of 32-bit words the secure generator will hand out next;
  \<open>calls\<close> lists what has been called so far, oldest first.
\<close>

datatype call = ReadFile | DrawRandom nat | AesEncrypt | LogError

record world =
  entropy :: "nat \<Rightarrow> 32 word"
  calls :: "call list"

text \<open>\<^verbatim>\<open>CryptoJS.lib.WordArray.random(nBytes)\<close>: one fresh word for every four bytes.\<close>

definition WordArray_random :: "nat \<Rightarrow> world \<Rightarrow> WordArray \<times> world" where
  "WordArray_random nBytes w =
     (let n = (nBytes + 3) div 4
      in (\<lparr>words = map (entropy w) [0..<n], sigBytes = nBytes\<rparr>,
          w\<lparr>entropy := (\<lambda>i. entropy w (n + i)), calls := calls w @ [DrawRandom nBytes]\<rparr>))"

subsection \<open>\<^verbatim>\<open>encryptFile\<close>\<close>

definition MAX_FILE_SIZE :: nat where
  "MAX_FILE_SIZE = 10 * 1024 * 1024"

text \<open>
  The \<^verbatim>\<open>try\<close> block. A \<^verbatim>\<open>File\<close> is the list of its bytes, and \<^verbatim>\<open>file.size\<close> their
  number.
\<close>

definition encrypt_body :: "cryptojs \<Rightarrow> byte list \<Rightarrow> world \<Rightarrow> (js_error + string) \<times> world" where
  "encrypt_body lib file w =
     (if length file > MAX_FILE_SIZE then (Inl (Error ''File size exceeds 10MB limit''), w)
      else
        (let w1 = w\<lparr>calls := calls w @ [ReadFile]\<rparr>;
             uint8Array = file;
             wordArray = WordArray_create uint8Array;
             (key, w2) = WordArray_random 32 w1;
             (iv, w3) = WordArray_random 16 w2;
             encrypted = AES_encrypt lib wordArray key iv;
             w4 = w3\<lparr>calls := calls w3 @ [AesEncrypt]\<rparr>;
             jsonString =
               JSON_stringify (toString key) (toString iv) encrypted (sigBytes wordArray);
             base64 =
               strip_equals
                 (replace_all CHR ''/'' CHR ''_''
                   (replace_all CHR ''+'' CHR ''-'' (btoa (utf8_encode jsonString))))
         in (Inr base64, w4)))"

text \<open>The function: the \<^verbatim>\<open>try\<close> block and its \<^verbatim>\<open>catch\<close>.\<close>

definition encryptFile :: "cryptojs \<Rightarrow> byte list \<Rightarrow> world \<Rightarrow> (js_error + string) \<times> world" where
  "encryptFile lib file w =
     (case encrypt_body lib file w of
        (Inl error, w') \<Rightarrow>
          (Inl (Error (if message error = ''File size exceeds 10MB limit'' then message error
                       else ''Failed to encrypt file. Please try again with a smaller file.'')),
           w'\<lparr>calls := calls w' @ [LogError]\<rparr>)
      | (Inr base64, w') \<Rightarrow> (Inr base64, w'))"

subsection \<open>\<^verbatim>\<open>decryptFile\<close>\<close>

text \<open>What the browser is asked to save: the bytes of the blob, its type, the file name.\<close>

record download =
  blob :: "byte list"
  blob_type :: string
  file_name :: string

text \<open>
  From the envelope to the JSON text: the alphabet restored, the padding added, then
  \<^verbatim>\<open>atob\<close> and the UTF-8 reading (one \<^verbatim>\<open>try\<close> in the code).
\<close>

definition transport_decode :: "string \<Rightarrow> string option" where
  "transport_decode base64Data =
     (let standardBase64 =
            add_padding (replace_all CHR ''_'' CHR ''/'' (replace_all CHR ''-'' CHR ''+'' base64Data))
      in case atob standardBase64 of
           None \<Rightarrow> None
         | Some decodedData \<Rightarrow> utf8_decode decodedData)"

text \<open>
  \<^verbatim>\<open>if (!decryptionData.k || !decryptionData.i || !decryptionData.d || !decryptionData.s)\<close>.
  Reading a property of \<^verbatim>\<open>null\<close> throws before anything is tested.
\<close>

definition required_fields :: "engine \<Rightarrow> json \<Rightarrow> js_error + json \<times> json \<times> json \<times> json" where
  "required_fields eng decryptionData =
     (case decryptionData of
        JNull \<Rightarrow> Inl (Error (null_message eng))
      | _ \<Rightarrow>
          if \<not> truthy (get_member decryptionData ''k'') \<or> \<not> truthy (get_member decryptionData ''i'')
             \<or> \<not> truthy (get_member decryptionData ''d'') \<or> \<not> truthy (get_member decryptionData ''s'')
          then Inl (Error ''Incomplete file data'')
          else Inr (the (get_member decryptionData ''k''), the (get_member decryptionData ''i''),
                    the (get_member decryptionData ''d''), the (get_member decryptionData ''s'')))"

text \<open>
  The inner loop, \<^verbatim>\<open>for (let j = 0; j < 4 && offset < sigBytes; j++)\<close>, where
  \<open>sigBytes'\<close> is the constant \<^verbatim>\<open>sigBytes\<close> of the code (\<^verbatim>\<open>decryptionData.s\<close>). A store
  into a typed array at an index that is not there is ignored; \<open>dropped\<close> counts those
  stores.
\<close>

function copy_word ::
  "engine \<Rightarrow> json \<Rightarrow> 32 word \<Rightarrow> nat \<Rightarrow> byte list \<Rightarrow> nat \<Rightarrow> nat \<Rightarrow> byte list \<times> nat \<times> nat" where
  "copy_word eng sigBytes' word j u8 offset dropped =
     (if j < 4 \<and> less_than eng offset sigBytes' then
        copy_word eng sigBytes' word (j + 1)
          (if offset < length u8 then u8[offset := word_byte word j] else u8)
          (offset + 1)
          (if offset < length u8 then dropped else dropped + 1)
      else (u8, offset, dropped))"
  by pat_completeness auto
termination
  by (relation "measure (\<lambda>(eng, sigBytes', word, j, u8, offset, dropped). 4 - j)") auto

declare copy_word.simps [simp del]

text \<open>The outer loop, \<^verbatim>\<open>for (let i = 0; i < words.length && offset < sigBytes; i++)\<close>.\<close>

fun copy_words ::
  "engine \<Rightarrow> json \<Rightarrow> 32 word list \<Rightarrow> byte list \<Rightarrow> nat \<Rightarrow> nat \<Rightarrow> byte list \<times> nat \<times> nat" where
  "copy_words eng sigBytes' [] u8 offset dropped = (u8, offset, dropped)"
| "copy_words eng sigBytes' (word # rest) u8 offset dropped =
     (if less_than eng offset sigBytes' then
        (case copy_word eng sigBytes' word 0 u8 offset dropped of
           (u8', offset', dropped') \<Rightarrow> copy_words eng sigBytes' rest u8' offset' dropped')
      else (u8, offset, dropped))"

declare copy_words.simps [simp del]

subsection \<open>What the loops compute\<close>

text \<open>
  The bytes of a word list in the order the loops read them: word by word, most
  significant byte first.
\<close>

definition buffer_bytes :: "32 word list \<Rightarrow> byte list" where
  "buffer_bytes ws =
     concat (map (\<lambda>word. [word_byte word 0, word_byte word 1, word_byte word 2, word_byte word 3]) ws)"

text \<open>
  \<open>fill\<close> is the array after the inner loop has stored \<open>k\<close> bytes of one word from
  position \<open>off\<close> on, and \<open>fills\<close> the array after the outer loop has gone through all
  the words; both are used to state what the loops return.
\<close>

definition fill :: "32 word \<Rightarrow> nat \<Rightarrow> byte list \<Rightarrow> nat \<Rightarrow> nat \<Rightarrow> byte list" where
  "fill w j u8 off k =
     map (\<lambda>p. if off \<le> p \<and> p < off + k then word_byte w (j + (p - off)) else u8 ! p) [0..<length u8]"

definition fills :: "32 word list \<Rightarrow> byte list \<Rightarrow> nat \<Rightarrow> byte list" where
  "fills ws u8 off =
     map (\<lambda>p. if off \<le> p \<and> p < off + 4 * length ws then byte_at ws (p - off) else u8 ! p)
         [0..<length u8]"

text \<open>The \<^verbatim>\<open>try\<close> block.\<close>

definition decrypt_body ::
  "cryptojs \<Rightarrow> engine \<Rightarrow> string \<Rightarrow> string \<Rightarrow> string \<Rightarrow> js_error + download" where
  "decrypt_body lib eng base64Data fileName mimeType =
     (if base64Data = [] then Inl (Error ''No data provided for decryption'')
      else
        (case transport_decode base64Data of
           None \<Rightarrow> Inl (Error ''Invalid file data format'')
         | Some jsonStr \<Rightarrow>
             (case JSON_parse jsonStr of
                None \<Rightarrow> Inl (Error ''Invalid file data structure'')
              | Some decryptionData \<Rightarrow>
                  (case required_fields eng decryptionData of
                     Inl error \<Rightarrow> Inl error
                   | Inr (kv, iv, dv, sv) \<Rightarrow>
                       (case Hex_parse lib kv of
                          Inl error \<Rightarrow> Inl error
                        | Inr key \<Rightarrow>
                            (case Hex_parse lib iv of
                               Inl error \<Rightarrow> Inl error
                             | Inr iv' \<Rightarrow>
                                 (case AES_decrypt lib dv key iv' of
                                    Inl error \<Rightarrow> Inl error
                                  | Inr decrypted \<Rightarrow>
                                      (case new_Uint8Array eng sv of
                                         Inl error \<Rightarrow> Inl error
                                       | Inr u8 \<Rightarrow>
                                           (case copy_words eng sv (words decrypted) u8 0 0 of
                                              (u8', offset, dropped) \<Rightarrow>
                                                Inr \<lparr>blob = u8',
                                                     blob_type =
                                                       (if mimeType = [] then ''application/octet-stream''
                                                        else mimeType),
                                                     file_name =
                                                       (if fileName = [] then ''downloaded-file''
                                                        else fileName)\<rparr>)))))))))"

text \<open>The function: the \<^verbatim>\<open>try\<close> block and its \<^verbatim>\<open>catch\<close>.\<close>

definition decryptFile ::
  "cryptojs \<Rightarrow> engine \<Rightarrow> string \<Rightarrow> string \<Rightarrow> string \<Rightarrow> js_error + download" where
  "decryptFile lib eng base64Data fileName mimeType =
     (case decrypt_body lib eng base64Data fileName mimeType of
        Inl error \<Rightarrow> Inl (Error (''Failed to decrypt file: '' @ message error))
      | Inr saved \<Rightarrow> Inr saved)"

subsection \<open>Encoding, then decoding\<close>

text \<open>
  The key and the IV that \<open>encryptFile\<close> draws in the world \<open>w\<close> (reading the file draws
  nothing), the text \<^verbatim>\<open>encrypted.toString()\<close> that it puts under \<^verbatim>\<open>d\<close>, and
  \<open>decryptFile\<close> applied to the envelope that \<open>encryptFile\<close> returns.
\<close>

definition drawn_key :: "world \<Rightarrow> WordArray" where
  "drawn_key w = fst (WordArray_random 32 w)"

definition drawn_iv :: "world \<Rightarrow> WordArray" where
  "drawn_iv w = fst (WordArray_random 16 (snd (WordArray_random 32 w)))"

definition sealed :: "cryptojs \<Rightarrow> byte list \<Rightarrow> world \<Rightarrow> string" where
  "sealed lib file w = AES_encrypt lib (WordArray_create file) (drawn_key w) (drawn_iv w)"

definition round_trip ::
  "cryptojs \<Rightarrow> engine \<Rightarrow> byte list \<Rightarrow> world \<Rightarrow> string \<Rightarrow> string \<Rightarrow> js_error + download" where
  "round_trip lib eng file w fileName mimeType =
     (case fst (encryptFile lib file w) of
        Inl error \<Rightarrow> Inl error
      | Inr base64 \<Rightarrow> decryptFile lib eng base64 fileName mimeType)"


subsection \<open>An instance to run the model on\<close>

text \<open>
  The theorems below hold for every library and every engine. To run the model on
  concrete inputs, one library and one engine are fixed here. The library pads the
  message as PKCS#7 does, masks every byte with a byte of the key and a byte of the IV,
  and writes the result in base64; it is no cipher to rely on.
\<close>

definition pkcs7 :: "byte list \<Rightarrow> byte list" where
  "pkcs7 bs = bs @ replicate (16 - length bs mod 16) (of_nat (16 - length bs mod 16))"

definition mask :: "WordArray \<Rightarrow> WordArray \<Rightarrow> byte list \<Rightarrow> byte list" where
  "mask key iv bs =
     map (\<lambda>(i, b). b XOR byte_at (words key) (i mod 32) XOR byte_at (words iv) (i mod 16))
         (enumerate 0 bs)"

definition demo_encrypt :: "WordArray \<Rightarrow> WordArray \<Rightarrow> WordArray \<Rightarrow> string" where
  "demo_encrypt msg key iv =
     btoa (map (\<lambda>b. char_of (unat b))
               (mask key iv (pkcs7 (map (byte_at (words msg)) [0..<sigBytes msg]))))"

definition demo_decrypt :: "json \<Rightarrow> WordArray \<Rightarrow> WordArray \<Rightarrow> js_error + WordArray" where
  "demo_decrypt v key iv =
     (case v of
        JString t \<Rightarrow>
          (case atob t of
             None \<Rightarrow> Inr \<lparr>words = [], sigBytes = 0\<rparr>
           | Some bin \<Rightarrow>
               (let bs = mask key iv (map (\<lambda>c. of_nat (of_char c)) bin)
                in Inr \<lparr>words = pack_bytes bs,
                        sigBytes = (if bs = [] then 0 else length bs - unat (last bs))\<rparr>))
      | _ \<Rightarrow> Inr \<lparr>words = [], sigBytes = 0\<rparr>)"

fun hex_pairs :: "string \<Rightarrow> byte list" where
  "hex_pairs (a # b # rest) =
     of_nat ((case hex_value a of None \<Rightarrow> 0 | Some x \<Rightarrow> x) * 16
             + (case hex_value b of None \<Rightarrow> 0 | Some y \<Rightarrow> y))
     # hex_pairs rest"
| "hex_pairs [a] = []"
| "hex_pairs [] = []"

definition demo_hex_parse :: "json \<Rightarrow> js_error + WordArray" where
  "demo_hex_parse v =
     (case v of
        JString t \<Rightarrow> Inr \<lparr>words = pack_bytes (hex_pairs t), sigBytes = length t div 2\<rparr>
      | _ \<Rightarrow> Inl (Error ''hexStr.substr is not a function''))"

definition demo_library :: cryptojs where
  "demo_library =
     \<lparr>AES_encrypt = demo_encrypt, Hex_parse = demo_hex_parse, AES_decrypt = demo_decrypt\<rparr>"

definition demo_engine :: engine where
  "demo_engine =
     \<lparr>max_length = 4294967295,
      null_message = ''Cannot read properties of null'',
      length_message = (\<lambda>r. ''Invalid typed array length''),
      array_of = (\<lambda>v. Inr []),
      below = (\<lambda>n v. False)\<rparr>"

text \<open>A world whose generator hands out the words 1, 2, 3, ...\<close>

definition demo_world :: world where
  "demo_world = \<lparr>entropy = (\<lambda>i. of_nat (Suc i)), calls = []\<rparr>"


section \<open>Base64 and the transport alphabet\<close>

text \<open>
  \<open>atob\<close> undoes \<open>btoa\<close>; what \<open>encryptFile\<close> does to the JSON text is
  \<open>base64url_nopad\<close>; and the first steps of \<open>decryptFile\<close> undo it.
\<close>

lemma of_char_bound: "(of_char c :: nat) < 256"
  using mod_less_divisor [of 256 "of_char c"] by simp

lemma of_char_div4: "(of_char c :: nat) div 4 < 64"
  by (rule less_mult_imp_div_less) (use of_char_bound [of c] in simp)

lemma of_char_div16: "(of_char c :: nat) div 16 < 16"
  by (rule less_mult_imp_div_less) (use of_char_bound [of c] in simp)

lemma of_char_div64: "(of_char c :: nat) div 64 < 4"
  by (rule less_mult_imp_div_less) (use of_char_bound [of c] in simp)

lemma sextet2: "(of_char a :: nat) mod 4 * 16 + of_char b div 16 < 64"
proof -
  have "(of_char a :: nat) mod 4 < 4" by simp
  then show ?thesis using of_char_div16 [of b] by linarith
qed

lemma sextet3: "(of_char b :: nat) mod 16 * 4 + of_char c div 64 < 64"
proof -
  have "(of_char b :: nat) mod 16 < 16" by simp
  then show ?thesis using of_char_div64 [of c] by linarith
qed

lemma sextet2': "(of_char a :: nat) mod 4 * 16 < 64"
proof -
  have "(of_char a :: nat) mod 4 < 4" by simp
  then show ?thesis by linarith
qed

lemma sextet3': "(of_char b :: nat) mod 16 * 4 < 64"
proof -
  have "(of_char b :: nat) mod 16 < 16" by simp
  then show ?thesis by linarith
qed

lemma sextets_bound: "list_all (\<lambda>n. n < 64) (sextets s)"
  by (induction s rule: sextets.induct)
     (simp_all add: Let_def of_char_div4 sextet2 sextet3 sextet2' sextet3')

lemma octet1: "char_of ((of_char a :: nat) div 4 * 4 + (of_char a mod 4 * 16 + of_char b div 16) div 16) = a"
proof -
  have "((of_char a :: nat) mod 4 * 16 + of_char b div 16) div 16 = of_char a mod 4"
    using of_char_div16 [of b] by simp
  then show ?thesis by simp
qed

lemma octet1': "char_of ((of_char a :: nat) div 4 * 4 + (of_char a mod 4 * 16) div 16) = a"
  by simp

lemma octet2:
  "char_of (((of_char a :: nat) mod 4 * 16 + of_char b div 16) mod 16 * 16
            + (of_char b mod 16 * 4 + of_char c div 64) div 4) = b"
proof -
  have "((of_char a :: nat) mod 4 * 16 + of_char b div 16) mod 16 = of_char b div 16"
    using of_char_div16 [of b] by simp
  moreover have "((of_char b :: nat) mod 16 * 4 + of_char c div 64) div 4 = of_char b mod 16"
    using of_char_div64 [of c] by simp
  ultimately show ?thesis by simp
qed

lemma octet2':
  "char_of (((of_char a :: nat) mod 4 * 16 + of_char b div 16) mod 16 * 16
            + (of_char b mod 16 * 4) div 4) = b"
proof -
  have "((of_char a :: nat) mod 4 * 16 + of_char b div 16) mod 16 = of_char b div 16"
    using of_char_div16 [of b] by simp
  then show ?thesis by simp
qed

lemma octet3:
  "char_of (((of_char b :: nat) mod 16 * 4 + of_char c div 64) mod 4 * 64 + of_char c mod 64) = c"
proof -
  have "((of_char b :: nat) mod 16 * 4 + of_char c div 64) mod 4 = of_char c div 64"
    using of_char_div64 [of c] by simp
  then show ?thesis by simp
qed

lemma of_char_small:
  "(of_char b :: nat) div 16 div 16 = 0" "(of_char b :: nat) div 16 mod 16 = of_char b div 16"
  "(of_char c :: nat) div 64 div 4 = 0" "(of_char c :: nat) div 64 mod 4 = of_char c div 64"
  using of_char_div16 [of b] of_char_div64 [of c] by simp_all

lemma octets_sextets: "octets (sextets s) = s"
  by (induction s rule: sextets.induct) (simp_all add: Let_def of_char_small)

lemma below_64: "n < 64 \<Longrightarrow> n \<in> set [0..<64]"
  by simp

lemma replace_all_map: "replace_all a b s = map (swap_char a b) s"
  by (simp add: replace_all_def swap_char_def)

lemma alphabet_facts:
  "list_all (\<lambda>n. b64index (b64char n) = Some n \<and> b64char n \<noteq> CHR ''=''
      \<and> \<not> ascii_whitespace (b64char n) \<and> url_chars ! n \<noteq> CHR ''=''
      \<and> swap_char CHR ''/'' CHR ''_'' (swap_char CHR ''+'' CHR ''-'' (b64char n)) = url_chars ! n
      \<and> swap_char CHR ''_'' CHR ''/'' (swap_char CHR ''-'' CHR ''+'' (url_chars ! n)) = b64char n)
     [0..<64]"
  by code_simp

lemma alphabet:
  assumes "n < 64"
  shows "b64index (b64char n) = Some n" and "b64char n \<noteq> CHR ''=''"
    and "\<not> ascii_whitespace (b64char n)" and "url_chars ! n \<noteq> CHR ''=''"
    and "swap_char CHR ''/'' CHR ''_'' (swap_char CHR ''+'' CHR ''-'' (b64char n)) = url_chars ! n"
    and "swap_char CHR ''_'' CHR ''/'' (swap_char CHR ''-'' CHR ''+'' (url_chars ! n)) = b64char n"
  using alphabet_facts below_64 [OF assms] unfolding list_all_iff by blast+

lemma padding_simps [simp]:
  "padding [] = 0" "padding [a] = 2" "padding [a, b] = 1"
  "padding (a # b # c # rest) = padding rest"
  by (simp_all add: padding_def)

lemma btoa_sextets: "btoa s = map b64char (sextets s) @ replicate (padding s) CHR ''=''"
  by (induction s rule: btoa.induct) (simp_all add: Let_def numeral_2_eq_2)

lemma length_sextets_mod: "length (sextets s) mod 4 \<in> {0, 2, 3}"
  by (induction s rule: sextets.induct) (simp_all add: Let_def)

lemma padding_sextets: "(4 - length (sextets s) mod 4) mod 4 = padding s"
  by (induction s rule: sextets.induct) (simp_all add: Let_def)

lemma strip_equals_clean:
  "list_all (\<lambda>c. c \<noteq> CHR ''='') xs \<Longrightarrow> strip_equals (xs @ replicate k CHR ''='') = xs"
proof -
  assume a: "list_all (\<lambda>c. c \<noteq> CHR ''='') xs"
  have "dropWhile (\<lambda>c. c = CHR ''='') (rev xs) = rev xs"
    using a by (cases "rev xs") (auto simp: list_all_iff dest: arg_cong [where f = set])
  then show ?thesis
    by (simp add: strip_equals_def dropWhile_append)
qed

lemma add_padding_eq:
  "add_padding s = s @ replicate ((4 - length s mod 4) mod 4) CHR ''=''"
proof (induction s rule: add_padding.induct)
  case (1 s)
  show ?case
  proof (cases "length s mod 4 = 0")
    case True
    then show ?thesis by (subst add_padding.simps) simp
  next
    case False
    have "length s mod 4 < 4" by (rule mod_less_divisor) simp
    with False consider "length s mod 4 = 1" | "length s mod 4 = 2" | "length s mod 4 = 3"
      by linarith
    then have k: "(4 - length s mod 4) mod 4 = Suc ((4 - Suc (length s) mod 4) mod 4)"
      by cases (simp_all add: mod_Suc)
    have "add_padding s = add_padding (s @ ''='')"
      using False by (subst add_padding.simps) simp
    also have "\<dots> = (s @ ''='') @ replicate ((4 - length (s @ ''='') mod 4) mod 4) CHR ''=''"
      using False by (rule "1.IH")
    also have "\<dots> = s @ replicate ((4 - length s mod 4) mod 4) CHR ''=''"
      unfolding k by simp
    finally show ?thesis .
  qed
qed

lemma remove_padding_clean:
  assumes "list_all (\<lambda>c. c \<noteq> CHR ''='') xs" and "k \<le> 2"
  shows "remove_padding (xs @ replicate k CHR ''='') = xs"
proof -
  have l: "xs \<noteq> [] \<Longrightarrow> last xs \<noteq> CHR ''=''"
    using assms(1) by (auto simp: list_all_iff)
  from assms(2) consider "k = 0" | "k = 1" | "k = 2" by linarith
  then show ?thesis
  proof cases
    case 1
    then show ?thesis using l by (auto simp: remove_padding_def)
  next
    case 2
    then show ?thesis using l by (auto simp: remove_padding_def)
  next
    case 3
    then have "replicate k CHR ''='' = ''==''" by (simp add: numeral_2_eq_2)
    then show ?thesis using l by (auto simp: remove_padding_def butlast_append)
  qed
qed

lemma sextets_below: "n \<in> set (sextets s) \<Longrightarrow> n < 64"
  using sextets_bound [of s] by (simp add: list_all_iff)

lemma body_clean: "list_all (\<lambda>c. c \<noteq> CHR ''='') (map b64char (sextets s))"
  by (simp add: list_all_iff alphabet(2) sextets_below)

lemma url_clean: "list_all (\<lambda>c. c \<noteq> CHR ''='') (base64url_nopad s)"
  by (simp add: list_all_iff base64url_nopad_def alphabet(4) sextets_below)

lemma to_url:
  "replace_all CHR ''/'' CHR ''_'' (replace_all CHR ''+'' CHR ''-'' (map b64char (sextets s)))
   = base64url_nopad s"
  by (simp add: replace_all_map base64url_nopad_def alphabet(5) sextets_below)

lemma from_url:
  "replace_all CHR ''_'' CHR ''/'' (replace_all CHR ''-'' CHR ''+'' (base64url_nopad s))
   = map b64char (sextets s)"
  by (simp add: replace_all_map base64url_nopad_def alphabet(6) sextets_below)

lemma replace_all_append [simp]:
  "replace_all a b (xs @ ys) = replace_all a b xs @ replace_all a b ys"
  by (simp add: replace_all_def)

lemma replace_all_equals [simp]:
  "a \<noteq> CHR ''='' \<Longrightarrow> replace_all a b (replicate k CHR ''='') = replicate k CHR ''=''"
  by (simp add: replace_all_def)

lemma transport_encode: 
  "strip_equals (replace_all CHR ''/'' CHR ''_'' (replace_all CHR ''+'' CHR ''-'' (btoa s)))
   = base64url_nopad s"
  by (simp add: btoa_sextets to_url strip_equals_clean url_clean)

lemma padded_length: "(length (sextets s) + padding s) mod 4 = 0"
  by (induction s rule: sextets.induct) (simp_all add: Let_def)

lemma atob_padded:
  "atob (map b64char (sextets s) @ replicate (padding s) CHR ''='') = Some s"
proof -
  let ?body = "map b64char (sextets s)"
  let ?dat = "?body @ replicate (padding s) CHR ''=''"
  have ws: "filter (\<lambda>c. \<not> ascii_whitespace c) ?dat = ?dat"
    by (auto simp: filter_id_conv alphabet(3) sextets_below ascii_whitespace_def [of "CHR ''=''"])
  have pad: "padding s \<le> 2"
    by (simp add: padding_def)
  have len: "length ?dat mod 4 = 0"
    by (simp add: padded_length)
  have body: "length ?body mod 4 \<noteq> 1"
    using length_sextets_mod [of s] by auto
  have "list_all (\<lambda>n. n < 64) ns \<Longrightarrow> those (map b64index (map b64char ns)) = Some ns" for ns
    by (induction ns) (simp_all add: alphabet(1))
  then have idx: "those (map b64index ?body) = Some (sextets s)"
    using sextets_bound [of s] by simp
  show ?thesis
    unfolding atob_def ws Let_def
    using len body idx
    by (simp add: remove_padding_clean [OF body_clean pad] octets_sextets)
qed

lemma atob_btoa: "atob (btoa s) = Some s"
  by (simp only: btoa_sextets atob_padded)

lemma transport_decode_url: "transport_decode (base64url_nopad s) = utf8_decode s"
  by (simp add: transport_decode_def from_url add_padding_eq padding_sextets atob_padded)

lemma length_pairs: "length (concat (map (\<lambda>i. [f i, g i]) xs)) = 2 * length xs"
  by (induction xs) simp_all

lemma length_toString: "length (toString wordArray) = 2 * sigBytes wordArray"
  by (simp add: toString_def length_pairs)

lemma hex_digit_in: "n < 16 \<Longrightarrow> lower_hex (hex_digit n)"
proof -
  assume "n < 16"
  then have "n \<in> set [0..<16]" by simp
  moreover have "list_all (\<lambda>n. lower_hex (hex_digit n)) [0..<16]"
    by code_simp
  ultimately show ?thesis unfolding list_all_iff by blast
qed

lemma unat_byte_div16: "unat (b :: byte) div 16 < 16"
proof -
  have "unat b < 2 ^ LENGTH(8)" by (rule unsigned_less)
  then have "unat b < 16 * 16" by simp
  then show ?thesis by (rule less_mult_imp_div_less)
qed

lemma toString_hex: "list_all lower_hex (toString wordArray)"
  unfolding toString_def list_all_iff
  by (auto intro!: hex_digit_in unat_byte_div16)

text \<open>The envelope that \<open>encryptFile\<close> returns for a file within the size bound.\<close>

lemma encrypt_envelope:
  assumes "length file \<le> MAX_FILE_SIZE"
  shows "fst (encryptFile lib file w) =
           Inr (base64url_nopad
                 (JSON_stringify
                    (toString \<lparr>words = map (entropy w) [0..<8], sigBytes = 32\<rparr>)
                    (toString \<lparr>words = map (\<lambda>i. entropy w (8 + i)) [0..<4], sigBytes = 16\<rparr>)
                    (AES_encrypt lib (WordArray_create file)
                       \<lparr>words = map (entropy w) [0..<8], sigBytes = 32\<rparr>
                       \<lparr>words = map (\<lambda>i. entropy w (8 + i)) [0..<4], sigBytes = 16\<rparr>)
                    (length file)))"
  using assms
  by (simp add: encryptFile_def encrypt_body_def WordArray_random_def WordArray_create_def
      Let_def transport_encode utf8_encode_def)

section \<open>The copy loops\<close>

text \<open>
  For a length \<open>n\<close> that is a natural number and an array of that length, the loops
  store byte \<open>p\<close> of the decrypted words at index \<open>p\<close> for every \<open>p\<close> below both \<open>n\<close>
  and the number of decrypted bytes, leave the rest of the array as it was, and drop no
  store.
\<close>

lemma less_than_nat [simp]: "less_than eng off (JNumber (of_nat n)) = (off < n)"
  by (simp add: less_than_def)

lemma length_fill [simp]: "length (fill w j u8 off k) = length u8"
  by (simp add: fill_def)

lemma fill_0 [simp]: "fill w j u8 off 0 = u8"
  by (auto simp: fill_def intro!: nth_equalityI)

lemma fill_Suc:
  "off < length u8 \<Longrightarrow>
   fill w (Suc j) (u8[off := word_byte w j]) (Suc off) k = fill w j u8 off (Suc k)"
proof (rule nth_equalityI)
  show "length (fill w (Suc j) (u8[off := word_byte w j]) (Suc off) k) = length (fill w j u8 off (Suc k))"
    by simp
next
  fix p
  assume "p < length (fill w (Suc j) (u8[off := word_byte w j]) (Suc off) k)"
  then have p: "p < length u8" by simp
  have "Suc off \<le> p \<Longrightarrow> Suc j + (p - Suc off) = j + (p - off)" by simp
  with p show "fill w (Suc j) (u8[off := word_byte w j]) (Suc off) k ! p = fill w j u8 off (Suc k) ! p"
    unfolding fill_def by (cases "p = off") (auto simp: nth_list_update)
qed

lemma copy_word_stop:
  "\<not> (j < 4 \<and> off < n) \<Longrightarrow> copy_word eng (JNumber (of_nat n)) w j u8 off d = (u8, off, d)"
  by (subst copy_word.simps) auto

lemma copy_word_go:
  "j < 4 \<Longrightarrow> off < n \<Longrightarrow> off < length u8 \<Longrightarrow>
   copy_word eng (JNumber (of_nat n)) w j u8 off d =
     copy_word eng (JNumber (of_nat n)) w (Suc j) (u8[off := word_byte w j]) (Suc off) d"
  by (subst copy_word.simps) simp

lemma copy_word_fill:
  "length u8 = n \<Longrightarrow> off \<le> n \<Longrightarrow>
   copy_word eng (JNumber (of_nat n)) w j u8 off d =
     (fill w j u8 off (min (4 - j) (n - off)), off + min (4 - j) (n - off), d)"
proof (induction "4 - j" arbitrary: j u8 off)
  case 0
  then have "\<not> (j < 4 \<and> off < n)" by simp
  then show ?case using 0 by (simp add: copy_word_stop)
next
  case (Suc m)
  show ?case
  proof (cases "off < n")
    case False
    then have "\<not> (j < 4 \<and> off < n)" by simp
    moreover from False Suc.prems have "n - off = 0" by simp
    ultimately show ?thesis by (simp add: copy_word_stop)
  next
    case True
    from Suc.hyps have j: "j < 4" and m: "m = 4 - Suc j" by simp_all
    have k: "min (4 - j) (n - off) = Suc (min (4 - Suc j) (n - Suc off))"
      using True j by simp
    have "copy_word eng (JNumber (of_nat n)) w j u8 off d =
       copy_word eng (JNumber (of_nat n)) w (Suc j) (u8[off := word_byte w j]) (Suc off) d"
      using j True Suc.prems by (simp add: copy_word_go)
    also have "\<dots> = (fill w (Suc j) (u8[off := word_byte w j]) (Suc off) (min (4 - Suc j) (n - Suc off)),
        Suc off + min (4 - Suc j) (n - Suc off), d)"
      using True Suc.prems by (intro Suc.hyps(1) [OF m]) simp_all
    also have "\<dots> = (fill w j u8 off (min (4 - j) (n - off)), off + min (4 - j) (n - off), d)"
      unfolding k using True Suc.prems by (simp add: fill_Suc)
    finally show ?thesis .
  qed
qed

lemma length_fills [simp]: "length (fills ws u8 off) = length u8"
  by (simp add: fills_def)

lemma fills_Nil [simp]: "fills [] u8 off = u8"
  by (auto simp: fills_def intro!: nth_equalityI)

lemma byte_at_Cons: "byte_at (w # ws) i = (if i < 4 then word_byte w i else byte_at ws (i - 4))"
proof (cases "i < 4")
  case True
  then show ?thesis by (simp add: byte_at_def)
next
  case False
  then obtain m where i: "i = m + 4" by (metis le_add_diff_inverse2 not_less)
  show ?thesis by (simp add: byte_at_def i)
qed

lemma fills_Cons:
  assumes "off \<le> length u8"
  shows "fills ws (fill w 0 u8 off (min 4 (length u8 - off))) (off + min 4 (length u8 - off))
         = fills (w # ws) u8 off"
proof (rule nth_equalityI)
  show "length (fills ws (fill w 0 u8 off (min 4 (length u8 - off))) (off + min 4 (length u8 - off)))
      = length (fills (w # ws) u8 off)"
    by simp
next
  fix p
  assume "p < length (fills ws (fill w 0 u8 off (min 4 (length u8 - off))) (off + min 4 (length u8 - off)))"
  then have p: "p < length u8" by simp
  consider "p < off" | "off \<le> p" "p < off + 4" | "off + 4 \<le> p" by linarith
  then show "fills ws (fill w 0 u8 off (min 4 (length u8 - off))) (off + min 4 (length u8 - off)) ! p
      = fills (w # ws) u8 off ! p"
  proof cases
    case 1
    with p show ?thesis by (simp add: fills_def fill_def)
  next
    case 2
    with p have q: "p - off < 4" "p - off < length u8 - off" by linarith+
    then have "p < off + min 4 (length u8 - off)" using 2 by simp
    with 2 p q show ?thesis by (simp add: fills_def fill_def byte_at_Cons)
  next
    case 3
    with p have m: "min 4 (length u8 - off) = 4" by simp
    from 3 have "p - off - 4 = p - (off + 4)" "\<not> p - off < 4" by simp_all
    with 3 p show ?thesis by (auto simp: fills_def fill_def byte_at_Cons m)
  qed
qed

lemma copy_words_fills:
  "length u8 = n \<Longrightarrow> off \<le> n \<Longrightarrow>
   copy_words eng (JNumber (of_nat n)) ws u8 off d =
     (fills ws u8 off, min n (off + 4 * length ws), d)"
proof (induction ws arbitrary: u8 off)
  case Nil
  then show ?case by (simp add: copy_words.simps)
next
  case (Cons w ws)
  show ?case
  proof (cases "off < n")
    case False
    with Cons.prems have "off = n" by simp
    with Cons.prems show ?thesis
      by (auto simp: fills_def copy_words.simps intro!: nth_equalityI)
  next
    case True
    let ?k = "min 4 (n - off)"
    have inner: "copy_word eng (JNumber (of_nat n)) w 0 u8 off d = (fill w 0 u8 off ?k, off + ?k, d)"
      using copy_word_fill [OF Cons.prems, of eng w 0 d] by simp
    have "copy_words eng (JNumber (of_nat n)) ws (fill w 0 u8 off ?k) (off + ?k) d =
        (fills ws (fill w 0 u8 off ?k) (off + ?k), min n (off + ?k + 4 * length ws), d)"
      using Cons.prems True by (intro Cons.IH) simp_all
    moreover have "fills ws (fill w 0 u8 off ?k) (off + ?k) = fills (w # ws) u8 off"
      using fills_Cons [of off u8 ws w] Cons.prems by simp
    moreover have "min n (off + ?k + 4 * length ws) = min n (off + 4 * length (w # ws))"
      using True by auto
    ultimately show ?thesis using True inner by (simp add: copy_words.simps)
  qed
qed

lemma copy_words_zeroes:
  "copy_words eng (JNumber (of_nat n)) ws (replicate n 0) 0 0 =
     (map (byte_at ws) [0..<n], min n (4 * length ws), 0)"
proof -
  have "fills ws (replicate n 0) 0 = map (byte_at ws) [0..<n]"
    by (auto simp: fills_def byte_at_def intro!: nth_equalityI)
  then show ?thesis
    using copy_words_fills [of "replicate n 0" n 0 eng ws 0] by simp
qed

lemma new_Uint8Array_nat:
  "n \<le> max_length eng \<Longrightarrow> n < 2 ^ 53 \<Longrightarrow>
   new_Uint8Array eng (JNumber (of_nat n)) = Inr (replicate n 0)"
  by (simp add: new_Uint8Array_def to_integer_def)

lemma new_Uint8Array_large:
  "max_length eng < n \<or> 2 ^ 53 \<le> n \<Longrightarrow>
   new_Uint8Array eng (JNumber (of_nat n)) = Inl (Error (length_message eng (of_nat n)))"
  by (auto simp: new_Uint8Array_def to_integer_def)

lemma length_buffer_bytes [simp]: "length (buffer_bytes ws) = 4 * length ws"
  by (induction ws) (simp_all add: buffer_bytes_def)

lemma buffer_bytes_nth: "i < 4 * length ws \<Longrightarrow> buffer_bytes ws ! i = byte_at ws i"
proof (induction ws arbitrary: i)
  case Nil
  then show ?case by simp
next
  case (Cons w ws)
  have split: "buffer_bytes (w # ws) =
      [word_byte w 0, word_byte w 1, word_byte w 2, word_byte w 3] @ buffer_bytes ws"
    by (simp add: buffer_bytes_def)
  show ?case
  proof (cases "i < 4")
    case True
    then consider "i = 0" | "i = 1" | "i = 2" | "i = 3" by linarith
    then show ?thesis by cases (simp_all add: split byte_at_Cons)
  next
    case False
    then obtain m where m: "i = m + 4" by (metis le_add_diff_inverse2 not_less)
    have "buffer_bytes (w # ws) ! i = buffer_bytes ws ! (i - 4)"
      unfolding split m by (simp add: nth_append)
    also have "\<dots> = byte_at ws (i - 4)"
      using False Cons.prems by (intro Cons.IH) simp
    finally show ?thesis using False by (simp add: byte_at_Cons)
  qed
qed

lemma bytes_within: "n \<le> 4 * length ws \<Longrightarrow> map (byte_at ws) [0..<n] = take n (buffer_bytes ws)"
  by (rule nth_equalityI) (simp_all add: buffer_bytes_nth)

lemma bytes_beyond:
  assumes "4 * length ws \<le> n"
  shows "map (byte_at ws) [0..<n] = buffer_bytes ws @ replicate (n - 4 * length ws) 0"
proof (rule nth_equalityI)
  show "length (map (byte_at ws) [0..<n]) = length (buffer_bytes ws @ replicate (n - 4 * length ws) 0)"
    using assms by simp
next
  fix i
  assume "i < length (map (byte_at ws) [0..<n])"
  then have i: "i < n" by simp
  show "map (byte_at ws) [0..<n] ! i = (buffer_bytes ws @ replicate (n - 4 * length ws) 0) ! i"
  proof (cases "i < 4 * length ws")
    case True
    with i show ?thesis by (simp add: nth_append buffer_bytes_nth)
  next
    case False
    then have "\<not> i div 4 < length ws" by simp
    with False i show ?thesis by (simp add: nth_append byte_at_def)
  qed
qed

lemma decrypt_delivers:
  assumes "base64Data \<noteq> []"
    and "transport_decode base64Data = Some jsonStr"
    and "JSON_parse jsonStr = Some decryptionData"
    and "required_fields eng decryptionData = Inr (kv, iv, dv, JNumber (of_nat n))"
    and "Hex_parse lib kv = Inr key"
    and "Hex_parse lib iv = Inr iv'"
    and "AES_decrypt lib dv key iv' = Inr decrypted"
    and "n \<le> max_length eng" and "n < 2 ^ 53"
  shows "decryptFile lib eng base64Data fileName mimeType =
           Inr \<lparr>blob = map (byte_at (words decrypted)) [0..<n],
                blob_type = (if mimeType = [] then ''application/octet-stream'' else mimeType),
                file_name = (if fileName = [] then ''downloaded-file'' else fileName)\<rparr>"
  using assms
  by (simp add: decryptFile_def decrypt_body_def new_Uint8Array_nat copy_words_zeroes)

text \<open>
  The same envelope with a length that \<^verbatim>\<open>new Uint8Array\<close> refuses, and the two cases of
  the loops: a length within the decrypted bytes, and a length beyond them.
\<close>

lemma decrypt_refuses_length:
  assumes "base64Data \<noteq> []"
    and "transport_decode base64Data = Some jsonStr"
    and "JSON_parse jsonStr = Some decryptionData"
    and "required_fields eng decryptionData = Inr (kv, iv, dv, JNumber (of_nat n))"
    and "Hex_parse lib kv = Inr key"
    and "Hex_parse lib iv = Inr iv'"
    and "AES_decrypt lib dv key iv' = Inr decrypted"
    and "max_length eng < n \<or> 2 ^ 53 \<le> n"
  shows "decryptFile lib eng base64Data fileName mimeType =
           Inl (Error (''Failed to decrypt file: '' @ length_message eng (of_nat n)))"
  using assms(1-7) new_Uint8Array_large [OF assms(8)]
  by (simp add: decryptFile_def decrypt_body_def)

lemma copy_words_within:
  assumes "n \<le> 4 * length ws"
  shows "copy_words eng (JNumber (of_nat n)) ws (replicate n 0) 0 0 =
           (take n (buffer_bytes ws), n, 0)"
  using assms by (simp add: copy_words_zeroes bytes_within)

lemma copy_words_beyond:
  assumes "4 * length ws \<le> n"
  shows "copy_words eng (JNumber (of_nat n)) ws (replicate n 0) 0 0 =
           (buffer_bytes ws @ replicate (n - 4 * length ws) 0, 4 * length ws, 0)"
  using assms by (simp add: copy_words_zeroes bytes_beyond)

section \<open>The validation stages of \<^verbatim>\<open>decryptFile\<close>\<close>

text \<open>
  What the caller gets when the first, second, third or fourth check fails. The four
  errors of the specification are the messages \<^verbatim>\<open>No data provided for decryption\<close>
  (EmptyInput), \<^verbatim>\<open>Invalid file data format\<close> (MalformedTransportEncoding),
  \<^verbatim>\<open>Invalid file data structure\<close> (InvalidStructure) and \<^verbatim>\<open>Incomplete file data\<close>
  (IncompleteEnvelope), each behind the prefix that the \<^verbatim>\<open>catch\<close> adds.
\<close>

lemma stage_empty:
  "decryptFile lib eng [] fileName mimeType =
     Inl (Error ''Failed to decrypt file: No data provided for decryption'')"
  by (simp add: decryptFile_def decrypt_body_def)

lemma stage_transport:
  assumes "base64Data \<noteq> []" and "transport_decode base64Data = None"
  shows "decryptFile lib eng base64Data fileName mimeType =
     Inl (Error ''Failed to decrypt file: Invalid file data format'')"
  using assms by (simp add: decryptFile_def decrypt_body_def)

lemma stage_structure:
  assumes "base64Data \<noteq> []" and "transport_decode base64Data = Some jsonStr"
    and "JSON_parse jsonStr = None"
  shows "decryptFile lib eng base64Data fileName mimeType =
     Inl (Error ''Failed to decrypt file: Invalid file data structure'')"
  using assms by (simp add: decryptFile_def decrypt_body_def)

lemma required_fields_incomplete:
  assumes "decryptionData \<noteq> JNull"
    and "\<not> (truthy (get_member decryptionData ''k'') \<and> truthy (get_member decryptionData ''i'')
            \<and> truthy (get_member decryptionData ''d'') \<and> truthy (get_member decryptionData ''s''))"
  shows "required_fields eng decryptionData = Inl (Error ''Incomplete file data'')"
  using assms by (cases decryptionData) (auto simp: required_fields_def)

lemma stage_fields:
  assumes "base64Data \<noteq> []" and "transport_decode base64Data = Some jsonStr"
    and "JSON_parse jsonStr = Some decryptionData" and "decryptionData \<noteq> JNull"
    and "\<not> (truthy (get_member decryptionData ''k'') \<and> truthy (get_member decryptionData ''i'')
            \<and> truthy (get_member decryptionData ''d'') \<and> truthy (get_member decryptionData ''s''))"
  shows "decryptFile lib eng base64Data fileName mimeType =
     Inl (Error ''Failed to decrypt file: Incomplete file data'')"
  using assms(1-3) required_fields_incomplete [OF assms(4,5)]
  by (simp add: decryptFile_def decrypt_body_def)

lemma stage_null:
  assumes "base64Data \<noteq> []" and "transport_decode base64Data = Some jsonStr"
    and "JSON_parse jsonStr = Some JNull"
  shows "decryptFile lib eng base64Data fileName mimeType =
     Inl (Error (''Failed to decrypt file: '' @ null_message eng))"
  using assms by (simp add: decryptFile_def decrypt_body_def required_fields_def)

section \<open>The round trip\<close>

text \<open>
  What \<open>decryptFile\<close> makes of an envelope that \<open>encryptFile\<close> has written. The key and
  the IV are written in lower-case hexadecimal digits; the text of the ciphertext comes
  from the library, and the lemmas ask that it consists of \<open>plain\<close> characters, as the
  Base64 text that CryptoJS returns does.
\<close>

subsection \<open>\<^verbatim>\<open>JSON.parse\<close> reads what \<^verbatim>\<open>JSON.stringify\<close> has written\<close>

lemma quote_char_plain: "plain c \<Longrightarrow> quote_char c = [c]"
  by (auto simp: plain_def quote_char_def)

lemma quote_plain: "list_all plain s \<Longrightarrow> quote s = CHR 0x22 # s @ [CHR 0x22]"
  by (induction s) (simp_all add: quote_def quote_char_plain)

lemma lex_string_plain:
  "list_all plain s \<Longrightarrow> lex_string (s @ CHR 0x22 # rest) = Some (s, rest)"
  by (induction s) (auto simp: plain_def)

lemma lex_quoted:
  "list_all plain s \<Longrightarrow>
   lex (CHR 0x22 # s @ CHR 0x22 # rest) = map_option ((#) (TString s)) (lex rest)"
  by (subst lex.simps) (simp add: lex_string_plain json_space_def)

lemma lex_punctuation:
  "lex (CHR ''{'' # rest) = map_option ((#) LBrace) (lex rest)"
  "lex (CHR ''}'' # rest) = map_option ((#) RBrace) (lex rest)"
  "lex (CHR '':'' # rest) = map_option ((#) Colon) (lex rest)"
  "lex (CHR '','' # rest) = map_option ((#) Comma) (lex rest)"
  by (subst lex.simps, simp add: json_space_def)+

lemma digit_char: "d < 10 \<Longrightarrow> (of_char (char_of (48 + d :: nat)) :: nat) = 48 + d"
  by simp

lemma is_digit_char: "d < 10 \<Longrightarrow> is_digit (char_of (48 + d :: nat))"
  by (simp add: is_digit_def)

lemma decimal_digits: "list_all is_digit (decimal n)"
proof (induction n rule: decimal.induct)
  case (1 n)
  show ?case
  proof (cases "n < 10")
    case True
    then show ?thesis by (subst decimal.simps) (simp add: is_digit_char)
  next
    case False
    have "n mod 10 < 10" by simp
    with False 1 show ?thesis by (subst decimal.simps) (simp add: is_digit_char)
  qed
qed

lemma decimal_nonempty: "decimal n \<noteq> []"
  by (subst decimal.simps) simp

lemma digits_value_snoc:
  "digits_value (ds @ [c]) = digits_value ds * 10 + (of_char c - 48)"
  by (simp add: digits_value_def)

lemma digit_char_int: "d < 10 \<Longrightarrow> (of_char (char_of (48 + d :: nat)) :: int) = 48 + int d"
proof -
  assume d: "d < 10"
  have "(of_char (char_of (48 + d)) :: int) = int (of_char (char_of (48 + d)))"
    by (simp only: of_nat_of_char)
  also have "\<dots> = int (48 + d)" using d by (simp only: digit_char)
  finally show ?thesis by simp
qed

lemma digits_value_decimal: "digits_value (decimal n) = int n"
proof (induction n rule: decimal.induct)
  case (1 n)
  show ?case
  proof (cases "n < 10")
    case True
    then show ?thesis
      by (subst decimal.simps) (simp add: digits_value_def digit_char_int)
  next
    case False
    have m: "n mod 10 < 10" by simp
    show ?thesis using False 1
      by (subst decimal.simps) (simp add: digits_value_snoc digit_char_int [OF m] zdiv_int zmod_int)
  qed
qed

lemma decimal_no_leading_zero: "hd (decimal n) = CHR ''0'' \<Longrightarrow> length (decimal n) \<le> 1"
proof (induction n rule: decimal.induct)
  case (1 n)
  show ?case
  proof (cases "n < 10")
    case True
    then show ?thesis by (subst decimal.simps) simp
  next
    case False
    then have d: "decimal n = decimal (n div 10) @ [char_of (48 + n mod 10)]"
      by (subst decimal.simps) simp
    from False have pos: "0 < n div 10" by simp
    have "hd (decimal (n div 10)) \<noteq> CHR ''0''"
    proof
      assume h: "hd (decimal (n div 10)) = CHR ''0''"
      with False 1 have "length (decimal (n div 10)) \<le> 1" by simp
      with decimal_nonempty [of "n div 10"] obtain c where c: "decimal (n div 10) = [c]"
        by (cases "decimal (n div 10)") auto
      with h have "decimal (n div 10) = ''0''" by simp
      then have "digits_value (decimal (n div 10)) = 0" by (simp add: digits_value_def)
      with pos show False by (simp add: digits_value_decimal)
    qed
    with \<open>hd (decimal n) = CHR ''0''\<close> show ?thesis
      using decimal_nonempty [of "n div 10"] by (simp add: d)
  qed
qed

lemma lex_number_decimal:
  assumes "\<not> is_digit c" "c \<noteq> CHR ''.''" "c \<noteq> CHR ''e''" "c \<noteq> CHR ''E''"
  shows "lex_number (decimal n @ c # rest) = Some (of_nat n, c # rest)"
proof -
  obtain d ds where dd: "decimal n = d # ds"
    using decimal_nonempty [of n] by (cases "decimal n") auto
  have dig: "list_all is_digit (d # ds)" using decimal_digits [of n] by (simp add: dd)
  then have "is_digit d" by simp
  then have "d \<noteq> CHR ''-''" by (auto simp: is_digit_def)
  then have sign: "lex_sign (decimal n @ c # rest) = (False, decimal n @ c # rest)"
    by (simp add: lex_sign_def dd)
  have digs: "lex_digits (decimal n @ c # rest) = (decimal n, c # rest)"
    using decimal_digits [of n] assms(1)
    by (simp add: lex_digits_def takeWhile_append1 dropWhile_append list_all_iff
        takeWhile_append2 dropWhile_append2)
  have frac: "lex_fraction (c # rest) = Some ([], c # rest)"
    using assms by (simp add: lex_fraction_def)
  have expo: "lex_exponent (c # rest) = Some (0, c # rest)"
    using assms by (simp add: lex_exponent_def)
  have lead: "\<not> (hd (decimal n) = CHR ''0'' \<and> length (decimal n) > 1)"
    using decimal_no_leading_zero [of n] by auto
  have val: "number_value False (decimal n) [] 0 = of_nat n"
    by (simp add: number_value_def scale10_def digits_value_decimal)
  show ?thesis
    using lead decimal_nonempty [of n]
    by (simp add: lex_number_def sign digs frac expo val)
qed

lemma lex_decimal_end:
  "lex (decimal n @ ''}'') = Some [TNumber (of_nat n), RBrace]"
proof -
  obtain d ds where dd: "decimal n = d # ds"
    using decimal_nonempty [of n] by (cases "decimal n") auto
  have "is_digit d" using decimal_digits [of n] by (simp add: dd)
  then have d: "\<not> json_space d" "d \<noteq> CHR ''{''" "d \<noteq> CHR ''}''" "d \<noteq> CHR ''[''" "d \<noteq> CHR '']''"
    "d \<noteq> CHR '':''" "d \<noteq> CHR '',''" "d \<noteq> CHR 0x22"
    by (auto simp: is_digit_def json_space_def)
  have n: "lex_number (d # ds @ ''}'') = Some (of_nat n, ''}'')"
    using lex_number_decimal [of "CHR ''}''" n "[]"] by (simp add: dd is_digit_def)
  have e: "lex ''}'' = Some [RBrace]"
    by (simp add: lex.simps json_space_def)
  have "lex (d # ds @ ''}'') = Some [TNumber (of_nat n), RBrace]"
    using d \<open>is_digit d\<close> by (subst lex.simps) (simp add: n e)
  then show ?thesis by (simp add: dd)
qed

lemma lex_quoted1:
  "plain c \<Longrightarrow>
   lex (CHR 0x22 # c # CHR 0x22 # rest) = map_option ((#) (TString [c])) (lex rest)"
  using lex_quoted [of "[c]" rest] by simp

lemma lex_envelope:
  assumes "list_all plain kv" "list_all plain iv" "list_all plain dv"
  shows "lex (JSON_stringify kv iv dv n) =
    Some [LBrace, TString ''k'', Colon, TString kv, Comma, TString ''i'', Colon, TString iv, Comma,
          TString ''d'', Colon, TString dv, Comma, TString ''s'', Colon, TNumber (of_nat n), RBrace]"
proof -
  have names: "list_all plain ''k''" "list_all plain ''i''" "list_all plain ''d''" "list_all plain ''s''"
    by (simp_all add: plain_def)
  show ?thesis
    using assms names
    by (simp add: JSON_stringify_def quote_plain lex_punctuation lex_quoted lex_quoted1
        lex_decimal_end)
qed

lemma JSON_parse_stringify:
  assumes "list_all plain kv" "list_all plain iv" "list_all plain dv"
  shows "JSON_parse (JSON_stringify kv iv dv n) =
    Some (JObject [(''k'', JString kv), (''i'', JString iv), (''d'', JString dv),
                   (''s'', JNumber (of_nat n))])"
  by (simp add: JSON_parse_def lex_envelope [OF assms])

subsection \<open>The transport encoding of the JSON text is undone\<close>

lemma utf8_ok_ascii: "list_all ascii s \<Longrightarrow> utf8_ok (map of_char s)"
  by (induction s) (simp_all add: ascii_def)

lemma utf8_decode_ascii: "list_all ascii s \<Longrightarrow> utf8_decode s = Some s"
  by (simp add: utf8_decode_def utf8_ok_ascii)

lemma plain_ascii: "list_all plain s \<Longrightarrow> list_all ascii s"
  by (induction s) (simp_all add: plain_def ascii_def)

lemma digit_ascii: "list_all is_digit s \<Longrightarrow> list_all ascii s"
  by (induction s) (simp_all add: is_digit_def ascii_def)

lemma JSON_stringify_ascii:
  assumes "list_all plain kv" "list_all plain iv" "list_all plain dv"
  shows "list_all ascii (JSON_stringify kv iv dv n)"
  using assms [THEN plain_ascii] digit_ascii [OF decimal_digits, of n] assms
  by (simp add: JSON_stringify_def quote_plain plain_def) (simp add: ascii_def)

lemma decode_envelope:
  assumes "list_all plain kv" "list_all plain iv" "list_all plain dv"
  shows "transport_decode (base64url_nopad (JSON_stringify kv iv dv n)) =
           Some (JSON_stringify kv iv dv n)"
  by (simp add: transport_decode_url utf8_decode_ascii JSON_stringify_ascii [OF assms])

lemma base64url_nopad_nonempty: "s \<noteq> [] \<Longrightarrow> base64url_nopad s \<noteq> []"
  by (cases s rule: sextets.cases) (simp_all add: base64url_nopad_def Let_def)

lemma JSON_stringify_nonempty: "JSON_stringify kv iv dv n \<noteq> []"
  by (simp add: JSON_stringify_def)

lemma lower_hex_plain: "lower_hex c \<Longrightarrow> plain c"
  by (auto simp: lower_hex_def plain_def)

lemma toString_plain: "list_all plain (toString wordArray)"
  using toString_hex [of wordArray] by (auto simp: list_all_iff intro: lower_hex_plain)

lemma toString_nonempty: "0 < sigBytes wordArray \<Longrightarrow> toString wordArray \<noteq> []"
  using length_toString [of wordArray] by auto

subsection \<open>Files that come back, and the one that does not\<close>

text \<open>
  A file of at least one byte comes back byte for byte, if the library reads back the
  key, the IV and the ciphertext that it wrote; the file of no bytes is rejected, whatever
  the library and the random words are.
\<close>

lemma drawn_key_eq: "drawn_key w = \<lparr>words = map (entropy w) [0..<8], sigBytes = 32\<rparr>"
  by (simp add: drawn_key_def WordArray_random_def)

lemma drawn_iv_eq:
  "drawn_iv w = \<lparr>words = map (\<lambda>i. entropy w (8 + i)) [0..<4], sigBytes = 16\<rparr>"
  by (simp add: drawn_iv_def WordArray_random_def)

lemma encrypt_sealed:
  assumes "length file \<le> MAX_FILE_SIZE"
  shows "fst (encryptFile lib file w) =
           Inr (base64url_nopad
                 (JSON_stringify (toString (drawn_key w)) (toString (drawn_iv w))
                    (sealed lib file w) (length file)))"
  using encrypt_envelope [OF assms, of lib w]
  by (simp add: sealed_def drawn_key_eq drawn_iv_eq)

lemma drawn_key_nonempty: "toString (drawn_key w) \<noteq> []"
  by (rule toString_nonempty) (simp add: drawn_key_eq)

lemma drawn_iv_nonempty: "toString (drawn_iv w) \<noteq> []"
  by (rule toString_nonempty) (simp add: drawn_iv_eq)

lemma required_fields_envelope:
  assumes "kv \<noteq> []" "iv \<noteq> []" "dv \<noteq> []" "0 < n"
  shows "required_fields eng
           (JObject [(''k'', JString kv), (''i'', JString iv), (''d'', JString dv),
                     (''s'', JNumber (of_nat n))]) =
         Inr (JString kv, JString iv, JString dv, JNumber (of_nat n))"
  using assms by (simp add: required_fields_def)

lemma MAX_FILE_SIZE_small: "n \<le> MAX_FILE_SIZE \<Longrightarrow> n < 2 ^ 53"
  by (simp add: MAX_FILE_SIZE_def)

lemma round_trip_nonempty:
  assumes "file \<noteq> []" and "length file \<le> MAX_FILE_SIZE" and "length file \<le> max_length eng"
    and "list_all plain (sealed lib file w)" and "sealed lib file w \<noteq> []"
    and "Hex_parse lib (JString (toString (drawn_key w))) = Inr key"
    and "Hex_parse lib (JString (toString (drawn_iv w))) = Inr iv"
    and "AES_decrypt lib (JString (sealed lib file w)) key iv = Inr decrypted"
    and "map (byte_at (words decrypted)) [0..<length file] = file"
  shows "round_trip lib eng file w fileName mimeType =
           Inr \<lparr>blob = file,
                blob_type = (if mimeType = [] then ''application/octet-stream'' else mimeType),
                file_name = (if fileName = [] then ''downloaded-file'' else fileName)\<rparr>"
proof -
  let ?k = "toString (drawn_key w)" and ?i = "toString (drawn_iv w)" and ?d = "sealed lib file w"
  let ?json = "JSON_stringify ?k ?i ?d (length file)"
  let ?obj = "JObject [(''k'', JString ?k), (''i'', JString ?i), (''d'', JString ?d),
                       (''s'', JNumber (of_nat (length file)))]"
  have enc: "fst (encryptFile lib file w) = Inr (base64url_nopad ?json)"
    by (rule encrypt_sealed [OF assms(2)])
  have nonempty: "base64url_nopad ?json \<noteq> []"
    by (rule base64url_nopad_nonempty [OF JSON_stringify_nonempty])
  have decode: "transport_decode (base64url_nopad ?json) = Some ?json"
    by (rule decode_envelope [OF toString_plain toString_plain assms(4)])
  have parse: "JSON_parse ?json = Some ?obj"
    by (rule JSON_parse_stringify [OF toString_plain toString_plain assms(4)])
  have fields: "required_fields eng ?obj =
      Inr (JString ?k, JString ?i, JString ?d, JNumber (of_nat (length file)))"
    using assms(1) by (intro required_fields_envelope drawn_key_nonempty drawn_iv_nonempty assms(5)) simp
  have "decryptFile lib eng (base64url_nopad ?json) fileName mimeType =
      Inr \<lparr>blob = map (byte_at (words decrypted)) [0..<length file],
           blob_type = (if mimeType = [] then ''application/octet-stream'' else mimeType),
           file_name = (if fileName = [] then ''downloaded-file'' else fileName)\<rparr>"
    by (rule decrypt_delivers [OF nonempty decode parse fields assms(6) assms(7) assms(8) assms(3)
          MAX_FILE_SIZE_small [OF assms(2)]])
  with enc assms(9) show ?thesis by (simp add: round_trip_def)
qed

lemma round_trip_empty:
  assumes "list_all plain (sealed lib [] w)"
  shows "round_trip lib eng [] w fileName mimeType =
           Inl (Error ''Failed to decrypt file: Incomplete file data'')"
proof -
  let ?k = "toString (drawn_key w)" and ?i = "toString (drawn_iv w)" and ?d = "sealed lib [] w"
  let ?json = "JSON_stringify ?k ?i ?d 0"
  let ?obj = "JObject [(''k'', JString ?k), (''i'', JString ?i), (''d'', JString ?d),
                       (''s'', JNumber (of_nat 0))]"
  have enc: "fst (encryptFile lib [] w) = Inr (base64url_nopad ?json)"
    using encrypt_sealed [of "[]" lib w] by (simp add: MAX_FILE_SIZE_def)
  have nonempty: "base64url_nopad ?json \<noteq> []"
    by (rule base64url_nopad_nonempty [OF JSON_stringify_nonempty])
  have decode: "transport_decode (base64url_nopad ?json) = Some ?json"
    by (rule decode_envelope [OF toString_plain toString_plain assms])
  have parse: "JSON_parse ?json = Some ?obj"
    by (rule JSON_parse_stringify [OF toString_plain toString_plain assms])
  have "decryptFile lib eng (base64url_nopad ?json) fileName mimeType =
      Inl (Error ''Failed to decrypt file: Incomplete file data'')"
    by (rule stage_fields [OF nonempty decode parse]) simp_all
  with enc show ?thesis by (simp add: round_trip_def)
qed

subsection \<open>Different random words give different envelopes\<close>

lemma hex_value_digit: "n < 16 \<Longrightarrow> hex_value (hex_digit n) = Some n"
proof -
  assume "n < 16"
  then have "n \<in> set [0..<16]" by simp
  moreover have "list_all (\<lambda>n. hex_value (hex_digit n) = Some n) [0..<16]"
    by code_simp
  ultimately show ?thesis unfolding list_all_iff by blast
qed

lemma hex_digit_inj:
  assumes "a < 16" "b < 16" "hex_digit a = hex_digit b"
  shows "a = b"
proof -
  have "Some a = hex_value (hex_digit a)" by (simp only: hex_value_digit [OF assms(1)])
  also have "\<dots> = hex_value (hex_digit b)" by (simp only: assms(3))
  also have "\<dots> = Some b" by (simp only: hex_value_digit [OF assms(2)])
  finally show ?thesis by simp
qed

lemma byte_hex_inj:
  fixes a b :: byte
  assumes "hex_digit (unat a div 16) = hex_digit (unat b div 16)"
    and "hex_digit (unat a mod 16) = hex_digit (unat b mod 16)"
  shows "a = b"
proof -
  have d: "unat a div 16 = unat b div 16"
    by (rule hex_digit_inj [OF unat_byte_div16 unat_byte_div16 assms(1)])
  have m: "unat a mod 16 = unat b mod 16"
    by (rule hex_digit_inj [OF _ _ assms(2)]) simp_all
  have "16 * (unat a div 16) + unat a mod 16 = 16 * (unat b div 16) + unat b mod 16"
    by (simp only: d m)
  then have "unat a = unat b"
    by (simp only: mult_div_mod_eq)
  then show ?thesis by (simp only: word_unat_eq_iff)
qed

lemma pairs_inj:
  "concat (map (\<lambda>i. [f i, g i]) xs) = concat (map (\<lambda>i. [f' i, g' i]) xs) \<Longrightarrow>
   i \<in> set xs \<Longrightarrow> f i = f' i \<and> g i = g' i"
proof (induction xs)
  case Nil
  then show ?case by simp
next
  case (Cons x xs)
  from Cons.prems(1) have head: "f x = f' x \<and> g x = g' x"
    and tail: "concat (map (\<lambda>i. [f i, g i]) xs) = concat (map (\<lambda>i. [f' i, g' i]) xs)"
    by simp_all
  show ?case
  proof (cases "i = x")
    case True
    with head show ?thesis by simp
  next
    case False
    with Cons.prems(2) have "i \<in> set xs" by simp
    with tail show ?thesis by (rule Cons.IH)
  qed
qed

lemma toString_inj:
  assumes "toString x = toString y" and "sigBytes x = sigBytes y" and "i < sigBytes x"
  shows "byte_at (words x) i = byte_at (words y) i"
proof -
  let ?f = "\<lambda>ws i. hex_digit (unat (byte_at ws i) div 16)"
  let ?g = "\<lambda>ws i. hex_digit (unat (byte_at ws i) mod 16)"
  from assms(3) have i: "i \<in> set [0..<sigBytes x]" by simp
  from assms(1,2) have eq:
    "concat (map (\<lambda>i. [?f (words x) i, ?g (words x) i]) [0..<sigBytes x]) =
     concat (map (\<lambda>i. [?f (words y) i, ?g (words y) i]) [0..<sigBytes x])"
    by (simp add: toString_def)
  have "?f (words x) i = ?f (words y) i \<and> ?g (words x) i = ?g (words y) i"
    by (rule pairs_inj [of "?f (words x)" "?g (words x)" "[0..<sigBytes x]"
          "?f (words y)" "?g (words y)" i, OF eq i])
  then show ?thesis using byte_hex_inj by blast
qed

lemma low_byte: "v AND (255 :: 32 word) = take_bit 8 v"
  by (simp add: take_bit_eq_mask mask_eq_exp_minus_1)

lemma bit_word_byte:
  "m < 8 \<Longrightarrow> bit (word_byte w j) m = bit w (24 - j * 8 + m)"
  by (auto simp add: word_byte_def low_byte bit_simps)

lemma word_bytes_eq:
  assumes "word_byte a 0 = word_byte b 0" "word_byte a 1 = word_byte b 1"
    "word_byte a 2 = word_byte b 2" "word_byte a 3 = word_byte b 3"
  shows "a = b"
proof (rule bit_word_eqI)
  fix n assume "n < LENGTH(32)"
  then have n: "n < 32" by simp
  consider "n < 8" | "8 \<le> n" "n < 16" | "16 \<le> n" "n < 24" | "24 \<le> n"
    by linarith
  then show "bit a n = bit b n"
  proof cases
    case 1
    then have "bit w n = bit (word_byte w 3) n" for w :: "32 word"
      by (simp add: bit_word_byte)
    then show ?thesis using assms by simp
  next
    case 2
    then have "bit w n = bit (word_byte w 2) (n - 8)" for w :: "32 word"
      by (simp add: bit_word_byte)
    then show ?thesis using assms by simp
  next
    case 3
    then have "bit w n = bit (word_byte w 1) (n - 16)" for w :: "32 word"
      by (simp add: bit_word_byte)
    then show ?thesis using assms by simp
  next
    case 4
    with n have "bit w n = bit (word_byte w 0) (n - 24)" for w :: "32 word"
      by (simp add: bit_word_byte)
    then show ?thesis using assms by simp
  qed
qed

lemma toString_words_inj:
  assumes "toString \<lparr>words = map f [0..<n], sigBytes = 4 * n\<rparr> =
           toString \<lparr>words = map g [0..<n], sigBytes = 4 * n\<rparr>"
    and "j < n"
  shows "f j = g j"
proof -
  have byte: "word_byte (f j) k = word_byte (g j) k" if "k < 4" for k
  proof -
    from that assms(2) have "4 * j + k < 4 * n" by linarith
    with toString_inj [OF assms(1), of "4 * j + k"]
    have "byte_at (map f [0..<n]) (4 * j + k) = byte_at (map g [0..<n]) (4 * j + k)" by simp
    moreover from that have "(4 * j + k) div 4 = j" and "(4 * j + k) mod 4 = k" by simp_all
    ultimately show ?thesis using assms(2) by (simp add: byte_at_def)
  qed
  show ?thesis by (rule word_bytes_eq) (simp_all add: byte)
qed

lemma envelope_fields:
  assumes "list_all plain kv" "list_all plain iv" "list_all plain dv"
    and "list_all plain kv'" "list_all plain iv'" "list_all plain dv'"
    and "base64url_nopad (JSON_stringify kv iv dv n) = base64url_nopad (JSON_stringify kv' iv' dv' n')"
  shows "kv = kv' \<and> iv = iv' \<and> dv = dv' \<and> n = n'"
proof -
  have "Some (JSON_stringify kv iv dv n) = transport_decode (base64url_nopad (JSON_stringify kv iv dv n))"
    by (simp only: decode_envelope [OF assms(1-3)])
  also have "\<dots> = transport_decode (base64url_nopad (JSON_stringify kv' iv' dv' n'))"
    by (simp only: assms(7))
  also have "\<dots> = Some (JSON_stringify kv' iv' dv' n')"
    by (simp only: decode_envelope [OF assms(4-6)])
  finally have "JSON_parse (JSON_stringify kv iv dv n) = JSON_parse (JSON_stringify kv' iv' dv' n')"
    by simp
  then show ?thesis
    by (simp add: JSON_parse_stringify [OF assms(1-3)] JSON_parse_stringify [OF assms(4-6)])
qed

lemma envelopes_differ:
  assumes "length file \<le> MAX_FILE_SIZE"
    and "list_all plain (sealed lib file w)" and "list_all plain (sealed lib file w')"
    and "j < 12" and "entropy w j \<noteq> entropy w' j"
  shows "fst (encryptFile lib file w) \<noteq> fst (encryptFile lib file w')"
proof
  assume "fst (encryptFile lib file w) = fst (encryptFile lib file w')"
  then have "base64url_nopad
       (JSON_stringify (toString (drawn_key w)) (toString (drawn_iv w)) (sealed lib file w)
          (length file)) =
     base64url_nopad
       (JSON_stringify (toString (drawn_key w')) (toString (drawn_iv w')) (sealed lib file w')
          (length file))"
    by (simp add: encrypt_sealed [OF assms(1)])
  from envelope_fields [OF toString_plain toString_plain assms(2) toString_plain toString_plain
      assms(3) this]
  have key: "toString (drawn_key w) = toString (drawn_key w')"
    and iv: "toString (drawn_iv w) = toString (drawn_iv w')"
    by simp_all
  show False
  proof (cases "j < 8")
    case True
    from key have "toString \<lparr>words = map (entropy w) [0..<8], sigBytes = 4 * 8\<rparr> =
        toString \<lparr>words = map (entropy w') [0..<8], sigBytes = 4 * 8\<rparr>"
      by (simp add: drawn_key_eq)
    from toString_words_inj [OF this True] assms(5) show False by simp
  next
    case False
    with assms(4) have j: "j - 8 < 4" and "8 + (j - 8) = j" by linarith+
    from iv have "toString \<lparr>words = map (\<lambda>i. entropy w (8 + i)) [0..<4], sigBytes = 4 * 4\<rparr> =
        toString \<lparr>words = map (\<lambda>i. entropy w' (8 + i)) [0..<4], sigBytes = 4 * 4\<rparr>"
      by (simp add: drawn_iv_eq)
    from toString_words_inj [OF this j] \<open>8 + (j - 8) = j\<close> assms(5) show False by simp
  qed
qed

section \<open>The claims\<close>

text \<open>
  C1. The round trip fails for the empty file. In the demo world \<open>encryptFile\<close> turns
  the empty file into an envelope with \<^verbatim>\<open>"s":0\<close>, and \<open>decryptFile\<close> rejects that
  envelope with \<^verbatim>\<open>Incomplete file data\<close> instead of delivering the empty file: the field
  check \<^verbatim>\<open>!decryptionData.s\<close> takes the length 0 for a missing field.
\<close>

theorem empty_file_not_recovered:
  "fst (encryptFile demo_library [] demo_world) =
     Inr ''eyJrIjoiMDAwMDAwMDEwMDAwMDAwMjAwMDAwMDAzMDAwMDAwMDQwMDAwMDAwNTAwMDAwMDA2MDAwMDAwMDcwMDAwMDAwOCIsImkiOiIwMDAwMDAwOTAwMDAwMDBhMDAwMDAwMGIwMDAwMDAwYyIsImQiOiJFQkFRR0JBUUVCZ1FFQkFZRUJBUUdBPT0iLCJzIjowfQ''
   \<and> decryptFile demo_library demo_engine
       ''eyJrIjoiMDAwMDAwMDEwMDAwMDAwMjAwMDAwMDAzMDAwMDAwMDQwMDAwMDAwNTAwMDAwMDA2MDAwMDAwMDcwMDAwMDAwOCIsImkiOiIwMDAwMDAwOTAwMDAwMDBhMDAwMDAwMGIwMDAwMDAwYyIsImQiOiJFQkFRR0JBUUVCZ1FFQkFZRUJBUUdBPT0iLCJzIjowfQ''
       ''empty.txt'' ''text/plain''
     = Inl (Error ''Failed to decrypt file: Incomplete file data'')"
proof -
  let ?env = "''eyJrIjoiMDAwMDAwMDEwMDAwMDAwMjAwMDAwMDAzMDAwMDAwMDQwMDAwMDAwNTAwMDAwMDA2MDAwMDAwMDcwMDAwMDAwOCIsImkiOiIwMDAwMDAwOTAwMDAwMDBhMDAwMDAwMGIwMDAwMDAwYyIsImQiOiJFQkFRR0JBUUVCZ1FFQkFZRUJBUUdBPT0iLCJzIjowfQ''"
  let ?json = "''{\"k\":\"0000000100000002000000030000000400000005000000060000000700000008\",\"i\":\"000000090000000a0000000b0000000c\",\"d\":\"EBAQGBAQEBgQEBAYEBAQGA==\",\"s\":0}''"
  let ?obj = "JObject [(''k'', JString ''0000000100000002000000030000000400000005000000060000000700000008''),
                     (''i'', JString ''000000090000000a0000000b0000000c''),
                     (''d'', JString ''EBAQGBAQEBgQEBAYEBAQGA==''), (''s'', JNumber 0)]"
  have "base64url_nopad
          (JSON_stringify
             (toString \<lparr>words = map (entropy demo_world) [0..<8], sigBytes = 32\<rparr>)
             (toString \<lparr>words = map (\<lambda>i. entropy demo_world (8 + i)) [0..<4], sigBytes = 16\<rparr>)
             (AES_encrypt demo_library (WordArray_create [])
                \<lparr>words = map (entropy demo_world) [0..<8], sigBytes = 32\<rparr>
                \<lparr>words = map (\<lambda>i. entropy demo_world (8 + i)) [0..<4], sigBytes = 16\<rparr>)
             (length ([] :: byte list))) = ?env"
    by code_simp
  then have enc: "fst (encryptFile demo_library [] demo_world) = Inr ?env"
    using encrypt_envelope [of "[]" demo_library demo_world] by (simp add: MAX_FILE_SIZE_def)
  have a: "transport_decode ?env = Some ?json" by code_simp
  have b: "JSON_parse ?json = Some ?obj" by code_simp
  have "decryptFile demo_library demo_engine ?env ''empty.txt'' ''text/plain''
      = Inl (Error ''Failed to decrypt file: Incomplete file data'')"
    by (rule stage_fields [OF _ a b]) simp_all
  with enc show ?thesis by simp
qed

text \<open>
  C2. An envelope whose field \<^verbatim>\<open>s\<close> is the number 0 is rejected as incomplete,
  whatever its other fields hold: \<^verbatim>\<open>!decryptionData.s\<close> is true for 0.
\<close>

theorem zero_length_rejected:
  assumes "base64Data \<noteq> []" and "transport_decode base64Data = Some jsonStr"
    and "JSON_parse jsonStr = Some decryptionData"
    and "get_member decryptionData ''s'' = Some (JNumber 0)"
  shows "decryptFile lib eng base64Data fileName mimeType =
     Inl (Error ''Failed to decrypt file: Incomplete file data'')"
proof -
  from assms(4) have "decryptionData \<noteq> JNull" by auto
  moreover from assms(4) have "\<not> truthy (get_member decryptionData ''s'')" by simp
  ultimately show ?thesis using assms(1-3) by (intro stage_fields) blast+
qed

text \<open>
  The envelope of \<^verbatim>\<open>{"k":"00","i":"00","d":"AA","s":0}\<close>, with all four fields present.
\<close>

theorem zero_length_rejected_witness:
  "decryptFile demo_library demo_engine ''eyJrIjoiMDAiLCJpIjoiMDAiLCJkIjoiQUEiLCJzIjowfQ''
     ''report.pdf'' ''application/pdf'' =
   Inl (Error ''Failed to decrypt file: Incomplete file data'')"
proof -
  have a: "transport_decode ''eyJrIjoiMDAiLCJpIjoiMDAiLCJkIjoiQUEiLCJzIjowfQ'' =
      Some ''{\"k\":\"00\",\"i\":\"00\",\"d\":\"AA\",\"s\":0}''"
    by code_simp
  have b: "JSON_parse ''{\"k\":\"00\",\"i\":\"00\",\"d\":\"AA\",\"s\":0}'' =
      Some (JObject [(''k'', JString ''00''), (''i'', JString ''00''), (''d'', JString ''AA''),
                     (''s'', JNumber 0)])"
    by code_simp
  show ?thesis
    by (rule zero_length_rejected [OF _ a b]) simp_all
qed

text \<open>
  C3. \<^verbatim>\<open>encryptFile\<close> fails with \<^verbatim>\<open>File size exceeds 10MB limit\<close> exactly when the file
  has more than 10485760 bytes, and returns an envelope exactly when it has at most that
  many; so a file of 10485761 bytes fails and one of 10485760 bytes succeeds.
\<close>

theorem size_boundary:
  "(fst (encryptFile lib file w) = Inl (Error ''File size exceeds 10MB limit''))
     = (10485760 < length file)
   \<and> (\<exists>base64. fst (encryptFile lib file w) = Inr base64) = (length file \<le> 10485760)"
  by (simp add: encryptFile_def encrypt_body_def MAX_FILE_SIZE_def Let_def split: prod.splits)

theorem size_boundary_witness:
  "fst (encryptFile demo_library (replicate 10485761 0) demo_world) =
     Inl (Error ''File size exceeds 10MB limit'')
   \<and> (\<exists>base64. fst (encryptFile demo_library (replicate 10485760 0) demo_world) = Inr base64)"
  using size_boundary [of demo_library "replicate 10485761 0" demo_world]
    size_boundary [of demo_library "replicate 10485760 0" demo_world]
  by simp

text \<open>
  C4. When the file is too large, the size check is all that happens: the secure generator
  is not asked for a word (the entropy is untouched), nothing is read or encrypted, and
  the only call made is the \<^verbatim>\<open>console.error\<close> of the \<^verbatim>\<open>catch\<close>.
\<close>

theorem too_large_leaves_no_trace:
  assumes "MAX_FILE_SIZE < length file"
  shows "encryptFile lib file w =
           (Inl (Error ''File size exceeds 10MB limit''), w\<lparr>calls := calls w @ [LogError]\<rparr>)
         \<and> entropy (snd (encryptFile lib file w)) = entropy w
         \<and> calls (snd (encryptFile lib file w)) = calls w @ [LogError]"
  using assms by (simp add: encryptFile_def encrypt_body_def)

theorem too_large_leaves_no_trace_witness:
  "encryptFile demo_library (replicate 10485761 0) demo_world =
     (Inl (Error ''File size exceeds 10MB limit''), demo_world\<lparr>calls := calls demo_world @ [LogError]\<rparr>)
   \<and> entropy (snd (encryptFile demo_library (replicate 10485761 0) demo_world)) = entropy demo_world
   \<and> calls (snd (encryptFile demo_library (replicate 10485761 0) demo_world)) = [LogError]"
  using too_large_leaves_no_trace [of "replicate 10485761 0" demo_library demo_world]
  by (simp add: MAX_FILE_SIZE_def demo_world_def)

text \<open>
  C5. The envelope \<^verbatim>\<open>bnVsbA\<close> is the text \<^verbatim>\<open>null\<close>. It passes the first three checks;
  the fourth reads \<^verbatim>\<open>decryptionData.k\<close> of \<^verbatim>\<open>null\<close>, which throws the engine's
  \<^verbatim>\<open>TypeError\<close>, so the caller sees that message and not \<^verbatim>\<open>Incomplete file data\<close>. For
  every other input the four checks behave as claimed (\<open>stage_empty\<close>,
  \<open>stage_transport\<close>, \<open>stage_structure\<close>, \<open>stage_fields\<close>).
\<close>

theorem null_envelope:
  "decryptFile lib eng ''bnVsbA'' fileName mimeType =
     Inl (Error (''Failed to decrypt file: '' @ null_message eng))"
proof -
  have "transport_decode ''bnVsbA'' = Some ''null''" by code_simp
  moreover have "JSON_parse ''null'' = Some JNull" by code_simp
  ultimately show ?thesis by (intro stage_null) simp_all
qed

text \<open>
  C6. For a file within the size bound, \<open>encryptFile\<close> returns
  \<open>base64url_nopad\<close> of the JSON text of \<^verbatim>\<open>{k, i, d, s}\<close>, where \<^verbatim>\<open>k\<close> is the key
  in hexadecimal (64 digits for its 32 bytes), \<^verbatim>\<open>i\<close> the IV in hexadecimal (32 digits
  for its 16 bytes), \<^verbatim>\<open>d\<close> the text the cipher returns and \<^verbatim>\<open>s\<close> the length of the
  file. Key and IV are the next eight and the following four words of the generator,
  which the call uses up. (\<open>transport_encode\<close> shows that the code's \<open>btoa\<close>, its two
  replacements and its stripping of \<^verbatim>\<open>=\<close> are \<open>base64url_nopad\<close>.)
\<close>

theorem wire_format:
  assumes "length file \<le> MAX_FILE_SIZE"
  shows "(let key = \<lparr>words = map (entropy w) [0..<8], sigBytes = 32\<rparr>;
              iv = \<lparr>words = map (\<lambda>i. entropy w (8 + i)) [0..<4], sigBytes = 16\<rparr>
          in fst (encryptFile lib file w) =
               Inr (base64url_nopad
                     (JSON_stringify (toString key) (toString iv)
                        (AES_encrypt lib (WordArray_create file) key iv) (length file)))
             \<and> length (toString key) = 64 \<and> length (toString iv) = 32
             \<and> list_all lower_hex (toString key) \<and> list_all lower_hex (toString iv)
             \<and> entropy (snd (encryptFile lib file w)) = (\<lambda>i. entropy w (12 + i)))"
  using assms
  by (simp add: encryptFile_def encrypt_body_def WordArray_random_def WordArray_create_def
      Let_def transport_encode utf8_encode_def length_toString toString_hex)

theorem wire_format_witness:
  "fst (encryptFile demo_library [1, 2, 3, 4, 5] demo_world) =
     Inr ''eyJrIjoiMDAwMDAwMDEwMDAwMDAwMjAwMDAwMDAzMDAwMDAwMDQwMDAwMDAwNTAwMDAwMDA2MDAwMDAwMDcwMDAwMDAwOCIsImkiOiIwMDAwMDAwOTAwMDAwMDBhMDAwMDAwMGIwMDAwMDAwYyIsImQiOiJBUUlEREFVTEN3TUxDd3NEQ3dzTEF3PT0iLCJzIjo1fQ''
   \<and> entropy (snd (encryptFile demo_library [1, 2, 3, 4, 5] demo_world)) = (\<lambda>i. entropy demo_world (12 + i))"
proof -
  let ?key = "\<lparr>words = map (entropy demo_world) [0..<8], sigBytes = 32\<rparr>"
  let ?iv = "\<lparr>words = map (\<lambda>i. entropy demo_world (8 + i)) [0..<4], sigBytes = 16\<rparr>"
  have "base64url_nopad
          (JSON_stringify (toString ?key) (toString ?iv)
             (AES_encrypt demo_library (WordArray_create [1, 2, 3, 4, 5]) ?key ?iv)
             (length [1, 2, 3, 4, 5 :: byte]))
        = ''eyJrIjoiMDAwMDAwMDEwMDAwMDAwMjAwMDAwMDAzMDAwMDAwMDQwMDAwMDAwNTAwMDAwMDA2MDAwMDAwMDcwMDAwMDAwOCIsImkiOiIwMDAwMDAwOTAwMDAwMDBhMDAwMDAwMGIwMDAwMDAwYyIsImQiOiJBUUlEREFVTEN3TUxDd3NEQ3dzTEF3PT0iLCJzIjo1fQ''"
    by code_simp
  moreover have "length [1, 2, 3, 4, 5 :: byte] \<le> MAX_FILE_SIZE"
    by (simp add: MAX_FILE_SIZE_def)
  ultimately show ?thesis
    using wire_format [of "[1, 2, 3, 4, 5]" demo_world demo_library]
    by (simp add: Let_def)
qed

text \<open>
  C7, as claimed, fails on envelopes that pass the four checks and that the library
  decrypts (to the sixteen bytes 1, 2, 3, 12, 5, 11, 11, 3, ...):
  \<^item> with \<^verbatim>\<open>"s":2.5\<close> the blob has two bytes, not \<^verbatim>\<open>s\<close>: \<^verbatim>\<open>new Uint8Array(2.5)\<close> has
    length 2;
  \<^item> with \<^verbatim>\<open>"s":-1\<close>, which the field check lets through, \<^verbatim>\<open>new Uint8Array(-1)\<close>
    throws a \<^verbatim>\<open>RangeError\<close> and nothing is delivered;
  \<^item> with \<^verbatim>\<open>"s":24\<close> the blob has 24 bytes, but the loops copy sixteen of them, not
    24: they stop after the last decrypted word, at offset 16.
\<close>

theorem length_not_recovered:
  "decryptFile demo_library demo_engine
     ''eyJrIjoiMDAiLCJpIjoiMDAiLCJkIjoiQVFJRERBVUxDd01MQ3dzREN3c0xBdz09IiwicyI6Mi41fQ''
     ''a.bin'' []
     = Inr \<lparr>blob = [1, 2], blob_type = ''application/octet-stream'', file_name = ''a.bin''\<rparr>
   \<and> required_fields demo_engine
       (JObject [(''k'', JString ''00''), (''i'', JString ''00''),
                 (''d'', JString ''AQIDDAULCwMLCwsDCwsLAw==''), (''s'', JNumber (- 1))])
     = Inr (JString ''00'', JString ''00'', JString ''AQIDDAULCwMLCwsDCwsLAw=='', JNumber (- 1))
   \<and> decryptFile demo_library demo_engine
       ''eyJrIjoiMDAiLCJpIjoiMDAiLCJkIjoiQVFJRERBVUxDd01MQ3dzREN3c0xBdz09IiwicyI6LTF9''
       ''a.bin'' []
     = Inl (Error ''Failed to decrypt file: Invalid typed array length'')
   \<and> AES_decrypt demo_library (JString ''AQIDDAULCwMLCwsDCwsLAw=='')
       \<lparr>words = [0], sigBytes = 1\<rparr> \<lparr>words = [0], sigBytes = 1\<rparr>
     = Inr \<lparr>words = [16909068, 84609795, 185273091, 185273091], sigBytes = 13\<rparr>
   \<and> decryptFile demo_library demo_engine
       ''eyJrIjoiMDAiLCJpIjoiMDAiLCJkIjoiQVFJRERBVUxDd01MQ3dzREN3c0xBdz09IiwicyI6MjR9''
       ''a.bin'' []
     = Inr \<lparr>blob = [1, 2, 3, 12, 5, 11, 11, 3, 11, 11, 11, 3, 11, 11, 11, 3, 0, 0, 0, 0, 0, 0, 0, 0],
            blob_type = ''application/octet-stream'', file_name = ''a.bin''\<rparr>
   \<and> copy_words demo_engine (JNumber 24) [16909068, 84609795, 185273091, 185273091]
       (replicate 24 0) 0 0
     = ([1, 2, 3, 12, 5, 11, 11, 3, 11, 11, 11, 3, 11, 11, 11, 3, 0, 0, 0, 0, 0, 0, 0, 0], 16, 0)"
proof -
  let ?d = "''AQIDDAULCwMLCwsDCwsLAw==''"
  let ?zero = "\<lparr>words = [0], sigBytes = 1\<rparr>"
  let ?ws = "[16909068, 84609795, 185273091, 185273091] :: 32 word list"
  let ?dec = "\<lparr>words = ?ws, sigBytes = 13\<rparr>"
  let ?json1 = "''{\"k\":\"00\",\"i\":\"00\",\"d\":\"AQIDDAULCwMLCwsDCwsLAw==\",\"s\":2.5}''"
  let ?json2 = "''{\"k\":\"00\",\"i\":\"00\",\"d\":\"AQIDDAULCwMLCwsDCwsLAw==\",\"s\":-1}''"
  let ?obj = "\<lambda>r. JObject [(''k'', JString ''00''), (''i'', JString ''00''), (''d'', JString ?d),
                     (''s'', JNumber r)]"
  have d: "Hex_parse demo_library (JString ''00'') = Inr ?zero"
    unfolding demo_library_def by code_simp
  have f: "AES_decrypt demo_library (JString ?d) ?zero ?zero = Inr ?dec"
    unfolding demo_library_def by code_simp
  have a1: "transport_decode
      ''eyJrIjoiMDAiLCJpIjoiMDAiLCJkIjoiQVFJRERBVUxDd01MQ3dzREN3c0xBdz09IiwicyI6Mi41fQ''
      = Some ?json1"
    by code_simp
  have b1: "JSON_parse ?json1 = Some (?obj (5 / 2))"
    by code_simp
  have c1: "required_fields demo_engine (?obj (5 / 2))
      = Inr (JString ''00'', JString ''00'', JString ?d, JNumber (5 / 2))"
    by (simp add: required_fields_def)
  have "\<lfloor>5 / 2 :: rat\<rfloor> = 2"
    by (simp add: floor_eq_iff)
  moreover have "replicate 2 (0 :: byte) = [0, 0]"
    by code_simp
  ultimately have g1: "new_Uint8Array demo_engine (JNumber (5 / 2)) = Inr [0, 0]"
    by (simp add: new_Uint8Array_def to_integer_def demo_engine_def)
  have h1: "copy_words eng (JNumber (5 / 2)) ?ws [0, 0] 0 0 = ([1, 2], 3, 1)" for eng
    by code_simp
  have one: "decryptFile demo_library demo_engine
      ''eyJrIjoiMDAiLCJpIjoiMDAiLCJkIjoiQVFJRERBVUxDd01MQ3dzREN3c0xBdz09IiwicyI6Mi41fQ''
      ''a.bin'' []
      = Inr \<lparr>blob = [1, 2], blob_type = ''application/octet-stream'', file_name = ''a.bin''\<rparr>"
    by (simp add: decryptFile_def decrypt_body_def a1 b1 c1 d f g1 h1 del: One_nat_def)
  have a2: "transport_decode
      ''eyJrIjoiMDAiLCJpIjoiMDAiLCJkIjoiQVFJRERBVUxDd01MQ3dzREN3c0xBdz09IiwicyI6LTF9''
      = Some ?json2"
    by code_simp
  have b2: "JSON_parse ?json2 = Some (?obj (- 1))"
    by code_simp
  have c2: "required_fields demo_engine (?obj (- 1))
      = Inr (JString ''00'', JString ''00'', JString ?d, JNumber (- 1))"
    by (simp add: required_fields_def)
  have g2: "new_Uint8Array demo_engine (JNumber (- 1)) = Inl (Error ''Invalid typed array length'')"
    by (simp add: new_Uint8Array_def to_integer_def demo_engine_def)
  have two: "decryptFile demo_library demo_engine
      ''eyJrIjoiMDAiLCJpIjoiMDAiLCJkIjoiQVFJRERBVUxDd01MQ3dzREN3c0xBdz09IiwicyI6LTF9''
      ''a.bin'' []
      = Inl (Error ''Failed to decrypt file: Invalid typed array length'')"
    by (simp add: decryptFile_def decrypt_body_def a2 b2 c2 d f g2 del: One_nat_def)
  have three: "copy_words eng (JNumber 24) ?ws (replicate 24 0) 0 0
     = ([1, 2, 3, 12, 5, 11, 11, 3, 11, 11, 11, 3, 11, 11, 11, 3, 0, 0, 0, 0, 0, 0, 0, 0], 16, 0)"
    for eng
    by code_simp
  let ?json3 = "''{\"k\":\"00\",\"i\":\"00\",\"d\":\"AQIDDAULCwMLCwsDCwsLAw==\",\"s\":24}''"
  have a3: "transport_decode
      ''eyJrIjoiMDAiLCJpIjoiMDAiLCJkIjoiQVFJRERBVUxDd01MQ3dzREN3c0xBdz09IiwicyI6MjR9''
      = Some ?json3"
    by code_simp
  have b3: "JSON_parse ?json3 = Some (?obj 24)"
    by code_simp
  have c3: "required_fields demo_engine (?obj 24)
      = Inr (JString ''00'', JString ''00'', JString ?d, JNumber (of_nat 24))"
    by (simp add: required_fields_def)
  have m3: "24 \<le> max_length demo_engine" "(24 :: nat) < 2 ^ 53"
    by (simp_all add: demo_engine_def)
  have e3: "map (byte_at ?ws) [0..<24] =
      [1, 2, 3, 12, 5, 11, 11, 3, 11, 11, 11, 3, 11, 11, 11, 3, 0, 0, 0, 0, 0, 0, 0, 0]"
    by code_simp
  have four: "decryptFile demo_library demo_engine
       ''eyJrIjoiMDAiLCJpIjoiMDAiLCJkIjoiQVFJRERBVUxDd01MQ3dzREN3c0xBdz09IiwicyI6MjR9''
       ''a.bin'' []
     = Inr \<lparr>blob = [1, 2, 3, 12, 5, 11, 11, 3, 11, 11, 11, 3, 11, 11, 11, 3, 0, 0, 0, 0, 0, 0, 0, 0],
            blob_type = ''application/octet-stream'', file_name = ''a.bin''\<rparr>"
    using decrypt_delivers [OF _ a3 b3 c3 d d f m3, of "''a.bin''" "[]"] e3
    by simp
  from one c2 two f four three [of demo_engine] show ?thesis by (simp only: simp_thms)
qed

text \<open>
  C7, amended. For an envelope that passes the four checks, whose \<^verbatim>\<open>k\<close>, \<^verbatim>\<open>i\<close> and
  \<^verbatim>\<open>d\<close> the library accepts, and whose \<^verbatim>\<open>s\<close> is a natural number \<open>n\<close> not above the
  number of decrypted bytes: if the engine allocates an array of \<open>n\<close> bytes, the blob
  handed to the browser is the first \<open>n\<close> bytes of the decrypted words, each word read
  most significant byte first; what follows them (the padding) is left out, and the blob
  has exactly \<open>n\<close> bytes. If the engine does not allocate \<open>n\<close> bytes, \<open>decryptFile\<close>
  fails with the engine's \<^verbatim>\<open>RangeError\<close> message behind the prefix. The loops store
  exactly \<open>n\<close> bytes (the offset they end at), none of them outside the array.
\<close>

theorem length_recovery:
  assumes "base64Data \<noteq> []"
    and "transport_decode base64Data = Some jsonStr"
    and "JSON_parse jsonStr = Some decryptionData"
    and "required_fields eng decryptionData = Inr (kv, iv, dv, JNumber (of_nat n))"
    and "Hex_parse lib kv = Inr key"
    and "Hex_parse lib iv = Inr iv'"
    and "AES_decrypt lib dv key iv' = Inr decrypted"
    and "n \<le> 4 * length (words decrypted)"
  shows "decryptFile lib eng base64Data fileName mimeType =
           (if n \<le> max_length eng \<and> n < 2 ^ 53
            then Inr \<lparr>blob = take n (buffer_bytes (words decrypted)),
                      blob_type = (if mimeType = [] then ''application/octet-stream'' else mimeType),
                      file_name = (if fileName = [] then ''downloaded-file'' else fileName)\<rparr>
            else Inl (Error (''Failed to decrypt file: '' @ length_message eng (of_nat n))))
         \<and> length (take n (buffer_bytes (words decrypted))) = n
         \<and> copy_words eng (JNumber (of_nat n)) (words decrypted) (replicate n 0) 0 0 =
             (take n (buffer_bytes (words decrypted)), n, 0)"
proof (cases "n \<le> max_length eng \<and> n < 2 ^ 53")
  case True
  then have "n \<le> max_length eng" and "n < 2 ^ 53" by simp_all
  from decrypt_delivers [OF assms(1-7) this] True assms(8) show ?thesis
    by (simp add: bytes_within copy_words_within)
next
  case False
  then have "max_length eng < n \<or> 2 ^ 53 \<le> n" by linarith
  from decrypt_refuses_length [OF assms(1-7) this] False assms(8) show ?thesis
    by (simp add: copy_words_within)
qed

text \<open>
  The envelope that \<open>encryptFile\<close> makes of the five bytes 1, 2, 3, 4, 5 in the demo
  world: the library decrypts it to sixteen bytes, eleven of them padding.
\<close>

theorem length_recovery_witness:
  "decryptFile demo_library demo_engine
     ''eyJrIjoiMDAwMDAwMDEwMDAwMDAwMjAwMDAwMDAzMDAwMDAwMDQwMDAwMDAwNTAwMDAwMDA2MDAwMDAwMDcwMDAwMDAwOCIsImkiOiIwMDAwMDAwOTAwMDAwMDBhMDAwMDAwMGIwMDAwMDAwYyIsImQiOiJBUUlEREFVTEN3TUxDd3NEQ3dzTEF3PT0iLCJzIjo1fQ''
     ''notes.txt'' [] =
   Inr \<lparr>blob = [1, 2, 3, 4, 5], blob_type = ''application/octet-stream'', file_name = ''notes.txt''\<rparr>
   \<and> copy_words demo_engine (JNumber 5) [16909060, 84609803, 185273099, 185273099]
         (replicate 5 0) 0 0 = ([1, 2, 3, 4, 5], 5, 0)"
proof -
  let ?k = "''0000000100000002000000030000000400000005000000060000000700000008''"
  let ?i = "''000000090000000a0000000b0000000c''"
  let ?d = "''AQIDDAULCwMLCwsDCwsLAw==''"
  let ?json = "''{\"k\":\"0000000100000002000000030000000400000005000000060000000700000008\",\"i\":\"000000090000000a0000000b0000000c\",\"d\":\"AQIDDAULCwMLCwsDCwsLAw==\",\"s\":5}''"
  let ?key = "\<lparr>words = [1, 2, 3, 4, 5, 6, 7, 8], sigBytes = 32\<rparr>"
  let ?iv = "\<lparr>words = [9, 10, 11, 12], sigBytes = 16\<rparr>"
  let ?dec = "\<lparr>words = [16909060, 84609803, 185273099, 185273099], sigBytes = 5\<rparr>"
  have a: "transport_decode
      ''eyJrIjoiMDAwMDAwMDEwMDAwMDAwMjAwMDAwMDAzMDAwMDAwMDQwMDAwMDAwNTAwMDAwMDA2MDAwMDAwMDcwMDAwMDAwOCIsImkiOiIwMDAwMDAwOTAwMDAwMDBhMDAwMDAwMGIwMDAwMDAwYyIsImQiOiJBUUlEREFVTEN3TUxDd3NEQ3dzTEF3PT0iLCJzIjo1fQ''
      = Some ?json"
    by code_simp
  have b: "JSON_parse ?json =
      Some (JObject [(''k'', JString ?k), (''i'', JString ?i), (''d'', JString ?d), (''s'', JNumber 5)])"
    by code_simp
  have c: "required_fields demo_engine
      (JObject [(''k'', JString ?k), (''i'', JString ?i), (''d'', JString ?d), (''s'', JNumber 5)])
      = Inr (JString ?k, JString ?i, JString ?d, JNumber (of_nat 5))"
    by (simp add: required_fields_def)
  have d: "Hex_parse demo_library (JString ?k) = Inr ?key"
    unfolding demo_library_def by code_simp
  have e: "Hex_parse demo_library (JString ?i) = Inr ?iv"
    unfolding demo_library_def by code_simp
  have f: "AES_decrypt demo_library (JString ?d) ?key ?iv = Inr ?dec"
    unfolding demo_library_def by code_simp
  have g: "take 5 (buffer_bytes (words ?dec)) = [1, 2, 3, 4, 5]"
    by code_simp
  have m: "5 \<le> max_length demo_engine" "(5 :: nat) < 2 ^ 53"
    by (simp_all add: demo_engine_def)
  show ?thesis
    using length_recovery [OF _ a b c d e f, of "''notes.txt''" "[]"] g m
    by simp
qed

text \<open>
  C8, as claimed, fails on the empty envelope: the step raises
  \<^verbatim>\<open>No data provided for decryption\<close> and the caller sees another message.
\<close>

theorem message_not_verbatim:
  "decrypt_body demo_library demo_engine [] [] [] = Inl (Error ''No data provided for decryption'')
   \<and> decryptFile demo_library demo_engine [] [] [] \<noteq> Inl (Error ''No data provided for decryption'')"
  by (simp add: decryptFile_def decrypt_body_def)

text \<open>
  C8, amended. Each of the four malformed-envelope errors reaches the caller with the
  message that the failing step raised, behind the prefix \<^verbatim>\<open>Failed to decrypt file: \<close>
  that the \<^verbatim>\<open>catch\<close> adds, and none is swallowed:
  \<^item> the empty envelope raises \<^verbatim>\<open>No data provided for decryption\<close>;
  \<^item> an envelope that is not the transport encoding of a UTF-8 text raises
    \<^verbatim>\<open>Invalid file data format\<close>;
  \<^item> a text that is not JSON raises \<^verbatim>\<open>Invalid file data structure\<close>;
  \<^item> a JSON value other than \<^verbatim>\<open>null\<close> in which one of \<^verbatim>\<open>k\<close>, \<^verbatim>\<open>i\<close>, \<^verbatim>\<open>d\<close>,
    \<^verbatim>\<open>s\<close> is missing or falsy raises \<^verbatim>\<open>Incomplete file data\<close>.
  In each case \<open>decrypt_body\<close> is the \<^verbatim>\<open>try\<close> block, and \<open>decryptFile\<close> what the caller
  gets.
\<close>

theorem malformed_envelope_errors:
  "(base64Data = [] \<longrightarrow>
      decrypt_body lib eng base64Data fileName mimeType =
        Inl (Error ''No data provided for decryption'') \<and>
      decryptFile lib eng base64Data fileName mimeType =
        Inl (Error ''Failed to decrypt file: No data provided for decryption''))
   \<and> (base64Data \<noteq> [] \<and> transport_decode base64Data = None \<longrightarrow>
      decrypt_body lib eng base64Data fileName mimeType =
        Inl (Error ''Invalid file data format'') \<and>
      decryptFile lib eng base64Data fileName mimeType =
        Inl (Error ''Failed to decrypt file: Invalid file data format''))
   \<and> (base64Data \<noteq> [] \<and> transport_decode base64Data = Some jsonStr \<and>
      JSON_parse jsonStr = None \<longrightarrow>
      decrypt_body lib eng base64Data fileName mimeType =
        Inl (Error ''Invalid file data structure'') \<and>
      decryptFile lib eng base64Data fileName mimeType =
        Inl (Error ''Failed to decrypt file: Invalid file data structure''))
   \<and> (base64Data \<noteq> [] \<and> transport_decode base64Data = Some jsonStr \<and>
      JSON_parse jsonStr = Some decryptionData \<and> decryptionData \<noteq> JNull \<and>
      \<not> (truthy (get_member decryptionData ''k'') \<and> truthy (get_member decryptionData ''i'')
         \<and> truthy (get_member decryptionData ''d'') \<and> truthy (get_member decryptionData ''s''))
      \<longrightarrow>
      decrypt_body lib eng base64Data fileName mimeType =
        Inl (Error ''Incomplete file data'') \<and>
      decryptFile lib eng base64Data fileName mimeType =
        Inl (Error ''Failed to decrypt file: Incomplete file data''))"
proof (intro conjI impI)
  assume "base64Data = []"
  then show "decrypt_body lib eng base64Data fileName mimeType =
      Inl (Error ''No data provided for decryption'')"
    by (simp add: decrypt_body_def)
  then show "decryptFile lib eng base64Data fileName mimeType =
      Inl (Error ''Failed to decrypt file: No data provided for decryption'')"
    by (simp add: decryptFile_def)
next
  assume "base64Data \<noteq> [] \<and> transport_decode base64Data = None"
  then show "decrypt_body lib eng base64Data fileName mimeType =
      Inl (Error ''Invalid file data format'')"
    by (simp add: decrypt_body_def)
  then show "decryptFile lib eng base64Data fileName mimeType =
      Inl (Error ''Failed to decrypt file: Invalid file data format'')"
    by (simp add: decryptFile_def)
next
  assume "base64Data \<noteq> [] \<and> transport_decode base64Data = Some jsonStr \<and>
      JSON_parse jsonStr = None"
  then show "decrypt_body lib eng base64Data fileName mimeType =
      Inl (Error ''Invalid file data structure'')"
    by (simp add: decrypt_body_def)
  then show "decryptFile lib eng base64Data fileName mimeType =
      Inl (Error ''Failed to decrypt file: Invalid file data structure'')"
    by (simp add: decryptFile_def)
next
  assume a: "base64Data \<noteq> [] \<and> transport_decode base64Data = Some jsonStr \<and>
      JSON_parse jsonStr = Some decryptionData \<and> decryptionData \<noteq> JNull \<and>
      \<not> (truthy (get_member decryptionData ''k'') \<and> truthy (get_member decryptionData ''i'')
         \<and> truthy (get_member decryptionData ''d'') \<and> truthy (get_member decryptionData ''s''))"
  then have "required_fields eng decryptionData = Inl (Error ''Incomplete file data'')"
    by (intro required_fields_incomplete) simp_all
  with a show "decrypt_body lib eng base64Data fileName mimeType =
      Inl (Error ''Incomplete file data'')"
    by (simp add: decrypt_body_def)
  then show "decryptFile lib eng base64Data fileName mimeType =
      Inl (Error ''Failed to decrypt file: Incomplete file data'')"
    by (simp add: decryptFile_def)
qed

text \<open>
  The envelopes \<^verbatim>\<open>""\<close>, \<^verbatim>\<open>"not-base64!!"\<close>, the envelope of the text \<^verbatim>\<open>{"k":\<close> and the
  envelope of \<^verbatim>\<open>{"k":"x"}\<close>.
\<close>

theorem malformed_envelope_errors_witness:
  "decryptFile demo_library demo_engine [] ''a.txt'' ''text/plain'' =
     Inl (Error ''Failed to decrypt file: No data provided for decryption'')
   \<and> decryptFile demo_library demo_engine ''not-base64!!'' ''a.txt'' ''text/plain'' =
     Inl (Error ''Failed to decrypt file: Invalid file data format'')
   \<and> decryptFile demo_library demo_engine ''eyJrIjo'' ''a.txt'' ''text/plain'' =
     Inl (Error ''Failed to decrypt file: Invalid file data structure'')
   \<and> decryptFile demo_library demo_engine ''eyJrIjoieCJ9'' ''a.txt'' ''text/plain'' =
     Inl (Error ''Failed to decrypt file: Incomplete file data'')"
proof -
  have a: "transport_decode ''not-base64!!'' = None" by code_simp
  have b: "transport_decode ''eyJrIjo'' = Some ''{\"k\":''" by code_simp
  have c: "JSON_parse ''{\"k\":'' = None" by code_simp
  have d: "transport_decode ''eyJrIjoieCJ9'' = Some ''{\"k\":\"x\"}''" by code_simp
  have e: "JSON_parse ''{\"k\":\"x\"}'' = Some (JObject [(''k'', JString ''x'')])" by code_simp
  have "decryptFile demo_library demo_engine [] ''a.txt'' ''text/plain'' =
      Inl (Error ''Failed to decrypt file: No data provided for decryption'')"
    using malformed_envelope_errors [of "[]" demo_library demo_engine "''a.txt''" "''text/plain''"]
    by simp
  moreover have "decryptFile demo_library demo_engine ''not-base64!!'' ''a.txt'' ''text/plain'' =
      Inl (Error ''Failed to decrypt file: Invalid file data format'')"
    using malformed_envelope_errors [of "''not-base64!!''" demo_library demo_engine "''a.txt''"
        "''text/plain''"] a
    by simp
  moreover have "decryptFile demo_library demo_engine ''eyJrIjo'' ''a.txt'' ''text/plain'' =
      Inl (Error ''Failed to decrypt file: Invalid file data structure'')"
    using malformed_envelope_errors [of "''eyJrIjo''" demo_library demo_engine "''a.txt''"
        "''text/plain''" "''{\"k\":''"] b c
    by simp
  moreover have "decryptFile demo_library demo_engine ''eyJrIjoieCJ9'' ''a.txt'' ''text/plain'' =
      Inl (Error ''Failed to decrypt file: Incomplete file data'')"
    using malformed_envelope_errors [of "''eyJrIjoieCJ9''" demo_library demo_engine "''a.txt''"
        "''text/plain''" "''{\"k\":\"x\"}''" "JObject [(''k'', JString ''x'')]"] d e
    by simp
  ultimately show ?thesis by (simp only: simp_thms)
qed


text \<open>
  C9. Two calls of \<open>encryptFile\<close> on the empty file that draw different keys and IVs
  return different envelopes, but neither envelope decodes back to the file: the second
  is rejected like the first (see C1), with \<^verbatim>\<open>Incomplete file data\<close>.
\<close>

theorem empty_file_envelopes_differ:
  "fst (encryptFile demo_library [] demo_world) =
     Inr ''eyJrIjoiMDAwMDAwMDEwMDAwMDAwMjAwMDAwMDAzMDAwMDAwMDQwMDAwMDAwNTAwMDAwMDA2MDAwMDAwMDcwMDAwMDAwOCIsImkiOiIwMDAwMDAwOTAwMDAwMDBhMDAwMDAwMGIwMDAwMDAwYyIsImQiOiJFQkFRR0JBUUVCZ1FFQkFZRUJBUUdBPT0iLCJzIjowfQ''
   \<and> fst (encryptFile demo_library [] \<lparr>entropy = (\<lambda>i. 7), calls = []\<rparr>) =
     Inr ''eyJrIjoiMDAwMDAwMDcwMDAwMDAwNzAwMDAwMDA3MDAwMDAwMDcwMDAwMDAwNzAwMDAwMDA3MDAwMDAwMDcwMDAwMDAwNyIsImkiOiIwMDAwMDAwNzAwMDAwMDA3MDAwMDAwMDcwMDAwMDAwNyIsImQiOiJFQkFRRUJBUUVCQVFFQkFRRUJBUUVBPT0iLCJzIjowfQ''
   \<and> decryptFile demo_library demo_engine
       ''eyJrIjoiMDAwMDAwMDcwMDAwMDAwNzAwMDAwMDA3MDAwMDAwMDcwMDAwMDAwNzAwMDAwMDA3MDAwMDAwMDcwMDAwMDAwNyIsImkiOiIwMDAwMDAwNzAwMDAwMDA3MDAwMDAwMDcwMDAwMDAwNyIsImQiOiJFQkFRRUJBUUVCQVFFQkFRRUJBUUVBPT0iLCJzIjowfQ''
       [] []
     = Inl (Error ''Failed to decrypt file: Incomplete file data'')"
proof -
  let ?env1 = "''eyJrIjoiMDAwMDAwMDEwMDAwMDAwMjAwMDAwMDAzMDAwMDAwMDQwMDAwMDAwNTAwMDAwMDA2MDAwMDAwMDcwMDAwMDAwOCIsImkiOiIwMDAwMDAwOTAwMDAwMDBhMDAwMDAwMGIwMDAwMDAwYyIsImQiOiJFQkFRR0JBUUVCZ1FFQkFZRUJBUUdBPT0iLCJzIjowfQ''"
  let ?env2 = "''eyJrIjoiMDAwMDAwMDcwMDAwMDAwNzAwMDAwMDA3MDAwMDAwMDcwMDAwMDAwNzAwMDAwMDA3MDAwMDAwMDcwMDAwMDAwNyIsImkiOiIwMDAwMDAwNzAwMDAwMDA3MDAwMDAwMDcwMDAwMDAwNyIsImQiOiJFQkFRRUJBUUVCQVFFQkFRRUJBUUVBPT0iLCJzIjowfQ''"
  let ?w2 = "\<lparr>entropy = (\<lambda>i. 7), calls = []\<rparr> :: world"
  let ?json2 = "''{\"k\":\"0000000700000007000000070000000700000007000000070000000700000007\",\"i\":\"00000007000000070000000700000007\",\"d\":\"EBAQEBAQEBAQEBAQEBAQEA==\",\"s\":0}''"
  let ?obj2 = "JObject [(''k'', JString ''0000000700000007000000070000000700000007000000070000000700000007''),
                     (''i'', JString ''00000007000000070000000700000007''),
                     (''d'', JString ''EBAQEBAQEBAQEBAQEBAQEA==''), (''s'', JNumber 0)]"
  have "base64url_nopad
          (JSON_stringify
             (toString \<lparr>words = map (entropy demo_world) [0..<8], sigBytes = 32\<rparr>)
             (toString \<lparr>words = map (\<lambda>i. entropy demo_world (8 + i)) [0..<4], sigBytes = 16\<rparr>)
             (AES_encrypt demo_library (WordArray_create [])
                \<lparr>words = map (entropy demo_world) [0..<8], sigBytes = 32\<rparr>
                \<lparr>words = map (\<lambda>i. entropy demo_world (8 + i)) [0..<4], sigBytes = 16\<rparr>)
             (length ([] :: byte list))) = ?env1"
    by code_simp
  then have enc1: "fst (encryptFile demo_library [] demo_world) = Inr ?env1"
    using encrypt_envelope [of "[]" demo_library demo_world] by (simp add: MAX_FILE_SIZE_def)
  have "base64url_nopad
          (JSON_stringify
             (toString \<lparr>words = map (entropy ?w2) [0..<8], sigBytes = 32\<rparr>)
             (toString \<lparr>words = map (\<lambda>i. entropy ?w2 (8 + i)) [0..<4], sigBytes = 16\<rparr>)
             (AES_encrypt demo_library (WordArray_create [])
                \<lparr>words = map (entropy ?w2) [0..<8], sigBytes = 32\<rparr>
                \<lparr>words = map (\<lambda>i. entropy ?w2 (8 + i)) [0..<4], sigBytes = 16\<rparr>)
             (length ([] :: byte list))) = ?env2"
    by code_simp
  then have enc2: "fst (encryptFile demo_library [] ?w2) = Inr ?env2"
    using encrypt_envelope [of "[]" demo_library ?w2] by (simp add: MAX_FILE_SIZE_def)
  have a: "transport_decode ?env2 = Some ?json2" by code_simp
  have b: "JSON_parse ?json2 = Some ?obj2" by code_simp
  have "decryptFile demo_library demo_engine ?env2 [] []
      = Inl (Error ''Failed to decrypt file: Incomplete file data'')"
    by (rule stage_fields [OF _ a b]) simp_all
  with enc1 enc2 show ?thesis by simp
qed

text \<open>
  C10, as claimed, fails in two ways on envelopes whose other fields are in order and
  whose \<^verbatim>\<open>d\<close> decrypts to four words (sixteen bytes):
  \<^item> with \<^verbatim>\<open>"s":9007199254740992\<close> (that is \<open>2^53\<close>), a length no engine allocates,
    \<^verbatim>\<open>new Uint8Array(sigBytes)\<close> throws a \<^verbatim>\<open>RangeError\<close> and \<open>decryptFile\<close> fails;
  \<^item> with \<^verbatim>\<open>"s":16.5\<close> the blob has sixteen bytes, not \<^verbatim>\<open>s\<close>.
\<close>

theorem length_beyond_engine:
  "required_fields demo_engine
     (JObject [(''k'', JString ''00''), (''i'', JString ''00''), (''d'', JString ''AQIDDAULCwMLCwsDCwsLAw==''),
               (''s'', JNumber 9007199254740992)])
     = Inr (JString ''00'', JString ''00'', JString ''AQIDDAULCwMLCwsDCwsLAw=='', JNumber 9007199254740992)
   \<and> AES_decrypt demo_library (JString ''AQIDDAULCwMLCwsDCwsLAw=='')
       \<lparr>words = [0], sigBytes = 1\<rparr> \<lparr>words = [0], sigBytes = 1\<rparr>
     = Inr \<lparr>words = [16909068, 84609795, 185273091, 185273091], sigBytes = 13\<rparr>
   \<and> decryptFile demo_library demo_engine
       ''eyJrIjoiMDAiLCJpIjoiMDAiLCJkIjoiQVFJRERBVUxDd01MQ3dzREN3c0xBdz09IiwicyI6OTAwNzE5OTI1NDc0MDk5Mn0''
       ''a.bin'' []
     = Inl (Error ''Failed to decrypt file: Invalid typed array length'')
   \<and> decryptFile demo_library demo_engine
       ''eyJrIjoiMDAiLCJpIjoiMDAiLCJkIjoiQVFJRERBVUxDd01MQ3dzREN3c0xBdz09IiwicyI6MTYuNX0''
       ''a.bin'' []
     = Inr \<lparr>blob = [1, 2, 3, 12, 5, 11, 11, 3, 11, 11, 11, 3, 11, 11, 11, 3],
            blob_type = ''application/octet-stream'', file_name = ''a.bin''\<rparr>"
proof -
  let ?d = "''AQIDDAULCwMLCwsDCwsLAw==''"
  let ?json = "''{\"k\":\"00\",\"i\":\"00\",\"d\":\"AQIDDAULCwMLCwsDCwsLAw==\",\"s\":9007199254740992}''"
  let ?json2 = "''{\"k\":\"00\",\"i\":\"00\",\"d\":\"AQIDDAULCwMLCwsDCwsLAw==\",\"s\":16.5}''"
  let ?zero = "\<lparr>words = [0], sigBytes = 1\<rparr>"
  let ?ws = "[16909068, 84609795, 185273091, 185273091] :: 32 word list"
  let ?dec = "\<lparr>words = ?ws, sigBytes = 13\<rparr>"
  let ?obj = "\<lambda>r. JObject [(''k'', JString ''00''), (''i'', JString ''00''), (''d'', JString ?d),
                     (''s'', JNumber r)]"
  have a: "transport_decode
      ''eyJrIjoiMDAiLCJpIjoiMDAiLCJkIjoiQVFJRERBVUxDd01MQ3dzREN3c0xBdz09IiwicyI6OTAwNzE5OTI1NDc0MDk5Mn0''
      = Some ?json"
    by code_simp
  have b: "JSON_parse ?json = Some (?obj 9007199254740992)"
    by code_simp
  have c: "required_fields demo_engine (?obj 9007199254740992)
      = Inr (JString ''00'', JString ''00'', JString ?d, JNumber 9007199254740992)"
    by (simp add: required_fields_def)
  have d: "Hex_parse demo_library (JString ''00'') = Inr ?zero"
    unfolding demo_library_def by code_simp
  have f: "AES_decrypt demo_library (JString ?d) ?zero ?zero = Inr ?dec"
    unfolding demo_library_def by code_simp
  have g: "new_Uint8Array demo_engine (JNumber 9007199254740992) =
      Inl (Error ''Invalid typed array length'')"
    by (simp add: new_Uint8Array_def to_integer_def demo_engine_def)
  have one: "decryptFile demo_library demo_engine
       ''eyJrIjoiMDAiLCJpIjoiMDAiLCJkIjoiQVFJRERBVUxDd01MQ3dzREN3c0xBdz09IiwicyI6OTAwNzE5OTI1NDc0MDk5Mn0''
       ''a.bin'' [] = Inl (Error ''Failed to decrypt file: Invalid typed array length'')"
    by (simp add: decryptFile_def decrypt_body_def a b c d f g del: One_nat_def)
  have a2: "transport_decode
      ''eyJrIjoiMDAiLCJpIjoiMDAiLCJkIjoiQVFJRERBVUxDd01MQ3dzREN3c0xBdz09IiwicyI6MTYuNX0''
      = Some ?json2"
    by code_simp
  have b2: "JSON_parse ?json2 = Some (?obj (33 / 2))"
    by code_simp
  have c2: "required_fields demo_engine (?obj (33 / 2))
      = Inr (JString ''00'', JString ''00'', JString ?d, JNumber (33 / 2))"
    by (simp add: required_fields_def)
  have "\<lfloor>33 / 2 :: rat\<rfloor> = 16"
    by (simp add: floor_eq_iff)
  moreover have "replicate 16 (0 :: byte) = [0, 0, 0, 0, 0, 0, 0, 0, 0, 0, 0, 0, 0, 0, 0, 0]"
    by code_simp
  ultimately have g2: "new_Uint8Array demo_engine (JNumber (33 / 2)) =
      Inr [0, 0, 0, 0, 0, 0, 0, 0, 0, 0, 0, 0, 0, 0, 0, 0]"
    by (simp add: new_Uint8Array_def to_integer_def demo_engine_def)
  have h2: "copy_words eng (JNumber (33 / 2)) ?ws [0, 0, 0, 0, 0, 0, 0, 0, 0, 0, 0, 0, 0, 0, 0, 0] 0 0 =
      ([1, 2, 3, 12, 5, 11, 11, 3, 11, 11, 11, 3, 11, 11, 11, 3], 16, 0)" for eng
    by code_simp
  have two: "decryptFile demo_library demo_engine
       ''eyJrIjoiMDAiLCJpIjoiMDAiLCJkIjoiQVFJRERBVUxDd01MQ3dzREN3c0xBdz09IiwicyI6MTYuNX0''
       ''a.bin'' []
     = Inr \<lparr>blob = [1, 2, 3, 12, 5, 11, 11, 3, 11, 11, 11, 3, 11, 11, 11, 3],
            blob_type = ''application/octet-stream'', file_name = ''a.bin''\<rparr>"
    by (simp add: decryptFile_def decrypt_body_def a2 b2 c2 d f g2 h2 del: One_nat_def)
  from c f one two show ?thesis by (simp only: simp_thms)
qed

text \<open>
  C10, amended. When \<^verbatim>\<open>s\<close> is a natural number \<open>n\<close> above the number of decrypted
  bytes: if \<open>n\<close> is not above what the engine allocates, \<open>decryptFile\<close> succeeds and the
  blob has \<open>n\<close> bytes, the decrypted bytes followed by zeros; otherwise
  \<^verbatim>\<open>new Uint8Array(sigBytes)\<close> throws and \<open>decryptFile\<close> fails with the engine's
  \<^verbatim>\<open>RangeError\<close> message behind the prefix. In an array of \<open>n\<close> bytes the loops stop
  after the last decrypted byte and no store falls outside the array (none is dropped).
\<close>

theorem length_beyond_buffer:
  assumes "base64Data \<noteq> []"
    and "transport_decode base64Data = Some jsonStr"
    and "JSON_parse jsonStr = Some decryptionData"
    and "required_fields eng decryptionData = Inr (kv, iv, dv, JNumber (of_nat n))"
    and "Hex_parse lib kv = Inr key"
    and "Hex_parse lib iv = Inr iv'"
    and "AES_decrypt lib dv key iv' = Inr decrypted"
    and "4 * length (words decrypted) < n"
  shows "decryptFile lib eng base64Data fileName mimeType =
           (if n \<le> max_length eng \<and> n < 2 ^ 53
            then Inr \<lparr>blob = buffer_bytes (words decrypted) @
                               replicate (n - 4 * length (words decrypted)) 0,
                      blob_type = (if mimeType = [] then ''application/octet-stream'' else mimeType),
                      file_name = (if fileName = [] then ''downloaded-file'' else fileName)\<rparr>
            else Inl (Error (''Failed to decrypt file: '' @ length_message eng (of_nat n))))
         \<and> length (buffer_bytes (words decrypted) @ replicate (n - 4 * length (words decrypted)) 0) = n
         \<and> copy_words eng (JNumber (of_nat n)) (words decrypted) (replicate n 0) 0 0 =
             (buffer_bytes (words decrypted) @ replicate (n - 4 * length (words decrypted)) 0,
              4 * length (words decrypted), 0)"
proof -
  from assms(8) have le: "4 * length (words decrypted) \<le> n" by simp
  show ?thesis
  proof (cases "n \<le> max_length eng \<and> n < 2 ^ 53")
    case True
    then have "n \<le> max_length eng" and "n < 2 ^ 53" by simp_all
    from decrypt_delivers [OF assms(1-7) this] True le show ?thesis
      by (simp add: bytes_beyond copy_words_beyond)
  next
    case False
    then have "max_length eng < n \<or> 2 ^ 53 \<le> n" by linarith
    from decrypt_refuses_length [OF assms(1-7) this] False le show ?thesis
      by (simp add: copy_words_beyond)
  qed
qed

text \<open>An envelope with \<^verbatim>\<open>"s":20\<close> whose \<^verbatim>\<open>d\<close> decrypts to sixteen bytes.\<close>

theorem length_beyond_buffer_witness:
  "decryptFile demo_library demo_engine
     ''eyJrIjoiMDAiLCJpIjoiMDAiLCJkIjoiQVFJRERBVUxDd01MQ3dzREN3c0xBdz09IiwicyI6MjB9''
     [] ''image/png'' =
   Inr \<lparr>blob = [1, 2, 3, 12, 5, 11, 11, 3, 11, 11, 11, 3, 11, 11, 11, 3, 0, 0, 0, 0],
        blob_type = ''image/png'', file_name = ''downloaded-file''\<rparr>
   \<and> copy_words demo_engine (JNumber 20) [16909068, 84609795, 185273091, 185273091]
         (replicate 20 0) 0 0 =
       ([1, 2, 3, 12, 5, 11, 11, 3, 11, 11, 11, 3, 11, 11, 11, 3, 0, 0, 0, 0], 16, 0)"
proof -
  let ?d = "''AQIDDAULCwMLCwsDCwsLAw==''"
  let ?json = "''{\"k\":\"00\",\"i\":\"00\",\"d\":\"AQIDDAULCwMLCwsDCwsLAw==\",\"s\":20}''"
  let ?zero = "\<lparr>words = [0], sigBytes = 1\<rparr>"
  let ?dec = "\<lparr>words = [16909068, 84609795, 185273091, 185273091], sigBytes = 13\<rparr>"
  have a: "transport_decode
      ''eyJrIjoiMDAiLCJpIjoiMDAiLCJkIjoiQVFJRERBVUxDd01MQ3dzREN3c0xBdz09IiwicyI6MjB9'' = Some ?json"
    by code_simp
  have b: "JSON_parse ?json =
      Some (JObject [(''k'', JString ''00''), (''i'', JString ''00''), (''d'', JString ?d),
                     (''s'', JNumber 20)])"
    by code_simp
  have c: "required_fields demo_engine
      (JObject [(''k'', JString ''00''), (''i'', JString ''00''), (''d'', JString ?d), (''s'', JNumber 20)])
      = Inr (JString ''00'', JString ''00'', JString ?d, JNumber (of_nat 20))"
    by (simp add: required_fields_def)
  have d: "Hex_parse demo_library (JString ''00'') = Inr ?zero"
    unfolding demo_library_def by code_simp
  have f: "AES_decrypt demo_library (JString ?d) ?zero ?zero = Inr ?dec"
    unfolding demo_library_def by code_simp
  have g: "buffer_bytes [16909068, 84609795, 185273091, 185273091] =
      [1, 2, 3, 12, 5, 11, 11, 3, 11, 11, 11, 3, 11, 11, 11, 3]"
    by code_simp
  have h: "replicate 4 (0 :: byte) = [0, 0, 0, 0]"
    by code_simp
  have m: "20 \<le> max_length demo_engine" "(20 :: nat) < 2 ^ 53"
    by (simp_all add: demo_engine_def)
  have l: "4 * length (words ?dec) < 20"
    by simp
  show ?thesis
    using length_beyond_buffer [OF _ a b c d d f l, of "[]" "''image/png''"] m
    by (simp add: g h)
qed

end
